theory Spec2Isabelle
  imports Complex_Main
begin

text \<open>
  A shallow embedding of the arithmetic game: the evolution ladder, the problem
  generator with its wrong answers, the game scene as a state record with its handlers,
  and the answer box of the interface. The definitions come first, each next to the
  name of the source function it follows; the properties come after them.
\<close>


section \<open>Evolution ladder (src/models/Evolution.ts)\<close>

text \<open>
  An evolution stage as the source declares it. The field \<open>id\<close> of the source is
  called \<open>stage_id\<close> here and \<open>name\<close> is \<open>stage_name\<close>; the emoji, a string of
  non-ASCII characters in the source, is kept as its list of Unicode code points.
  Experience values are JavaScript numbers that only ever hold integers (sums of integer
  awards), so they are modelled as \<open>int\<close>.
\<close>

record EvolutionStage =
  stage_id :: int
  stage_name :: string
  emoji :: "nat list"
  xpRequired :: int

definition EVOLUTION_STAGES :: "EvolutionStage list" where
  "EVOLUTION_STAGES =
    [ \<lparr>stage_id = 1, stage_name = ''Starter Shuttle'', emoji = [0x1F6F8], xpRequired = 0\<rparr>,
      \<lparr>stage_id = 2, stage_name = ''Scout Rocket'', emoji = [0x1F680], xpRequired = 500\<rparr>,
      \<lparr>stage_id = 3, stage_name = ''Orbital Skimmer'', emoji = [0x1F6F0, 0xFE0F], xpRequired = 1500\<rparr>,
      \<lparr>stage_id = 4, stage_name = ''Ion Spear'', emoji = [0x2604, 0xFE0F], xpRequired = 3500\<rparr>,
      \<lparr>stage_id = 5, stage_name = ''Nova Striker'', emoji = [0x2728], xpRequired = 7000\<rparr>,
      \<lparr>stage_id = 6, stage_name = ''Starforged Cruiser'', emoji = [0x1F30C], xpRequired = 12000\<rparr>,
      \<lparr>stage_id = 7, stage_name = ''Celestial Apex'', emoji = [0x2B50], xpRequired = 20000\<rparr> ]"

text \<open>
  \<open>getEvolutionStage\<close>: the \<open>for ... of\<close> loop with its \<open>break\<close>. The loop variable
  \<open>stage\<close> is the accumulator; the first stage whose threshold exceeds \<open>xp\<close> ends the loop.
\<close>

fun stageLoop :: "EvolutionStage list \<Rightarrow> int \<Rightarrow> int \<Rightarrow> int" where
  "stageLoop [] xp stage = stage"
| "stageLoop (evolution # rest) xp stage =
     (if xp \<ge> xpRequired evolution then stageLoop rest xp (stage_id evolution) else stage)"

definition getEvolutionStage :: "int \<Rightarrow> int" where
  "getEvolutionStage xp = stageLoop EVOLUTION_STAGES xp 1"

text \<open>\<open>Array.prototype.find\<close> is \<open>List.find\<close>; \<open>|| EVOLUTION_STAGES[0]\<close> is the default.\<close>

definition getEvolutionByStage :: "int \<Rightarrow> EvolutionStage" where
  "getEvolutionByStage stage =
     (case find (\<lambda>e. stage_id e = stage) EVOLUTION_STAGES of
        Some e \<Rightarrow> e
      | None \<Rightarrow> EVOLUTION_STAGES ! 0)"

definition getNextEvolution :: "int \<Rightarrow> EvolutionStage option" where
  "getNextEvolution currentStage =
     (let nextStage = currentStage + 1
      in find (\<lambda>e. stage_id e = nextStage) EVOLUTION_STAGES)"

definition getXPToNextEvolution :: "int \<Rightarrow> int \<Rightarrow> int" where
  "getXPToNextEvolution currentXP currentStage =
     (case getNextEvolution currentStage of
        None \<Rightarrow> 0
      | Some next \<Rightarrow> max 0 (xpRequired next - currentXP))"

text \<open>
  \<open>getEvolutionProgress\<close> divides two numbers and scales by 100; the quotient is not an
  integer in general, so the result is a \<open>real\<close> (the exact value that the source's
  floating-point division approximates). There is an upper clamp (\<open>Math.min(100, ...)\<close>)
  and no lower one.
\<close>

definition getEvolutionProgress :: "int \<Rightarrow> int \<Rightarrow> real" where
  "getEvolutionProgress currentXP currentStage =
     (let current = getEvolutionByStage currentStage
      in case getNextEvolution currentStage of
           None \<Rightarrow> 100
         | Some next \<Rightarrow>
             (let xpInCurrentStage = currentXP - xpRequired current;
                  xpNeededForNext = xpRequired next - xpRequired current
              in min 100 ((real_of_int xpInCurrentStage / real_of_int xpNeededForNext) * 100)))"

text \<open>
  The specification's wording of the stage lookup: the highest stage ordinal whose
  threshold is at most \<open>xp\<close>. It is compared with \<open>getEvolutionStage\<close> below.
\<close>

definition spec_stageForXp :: "int \<Rightarrow> int" where
  "spec_stageForXp xp = Max (stage_id ` {e \<in> set EVOLUTION_STAGES. xpRequired e \<le> xp})"

text \<open>The threshold of a stage ordinal, read off the ladder.\<close>

definition threshold :: "int \<Rightarrow> int" where
  "threshold stage = xpRequired (getEvolutionByStage stage)"


section \<open>Problem generator (src/math/types.ts, src/math/MathGenerator.ts)\<close>

datatype MathOperation = addition | subtraction | multiplication | division

record MathProblem =
  operand1 :: int
  operand2 :: int
  operation :: MathOperation
  answer :: int
  equation :: string

record DifficultyConfig =
  level :: int
  operations :: "MathOperation list"
  maxNumber :: int
  maxMultiplier :: int

definition DIFFICULTY_CONFIGS :: "DifficultyConfig list" where
  "DIFFICULTY_CONFIGS =
    [ \<lparr>level = 1, operations = [addition], maxNumber = 10, maxMultiplier = 5\<rparr>,
      \<lparr>level = 2, operations = [addition, subtraction], maxNumber = 15, maxMultiplier = 5\<rparr>,
      \<lparr>level = 3, operations = [addition, subtraction, multiplication],
         maxNumber = 20, maxMultiplier = 5\<rparr>,
      \<lparr>level = 4, operations = [addition, subtraction, multiplication, division],
         maxNumber = 50, maxMultiplier = 10\<rparr>,
      \<lparr>level = 5, operations = [addition, subtraction, multiplication, division],
         maxNumber = 100, maxMultiplier = 12\<rparr> ]"

subsection \<open>The random source\<close>

text \<open>
  \<open>Math.random()\<close> is the only source of randomness. The sequence of values that the
  successive calls return is an explicit argument: \<open>g n\<close> is the value of the \<open>n\<close>-th
  call from now on. A call returns \<open>g 0\<close> and leaves the shifted sequence. The language
  guarantees \<open>0 \<le> Math.random() < 1\<close>; that is \<open>valid_rng\<close>, a hypothesis wherever a
  result depends on it. The values are modelled as exact reals.
\<close>

type_synonym rng = "nat \<Rightarrow> real"

definition valid_rng :: "rng \<Rightarrow> bool" where
  "valid_rng g = (\<forall>n. 0 \<le> g n \<and> g n < 1)"

definition Math_random :: "rng \<Rightarrow> real \<times> rng" where
  "Math_random g = (g 0, \<lambda>n. g (Suc n))"

definition randomInt :: "int \<Rightarrow> int \<Rightarrow> rng \<Rightarrow> int \<times> rng" where
  "randomInt mn mx g =
     (case Math_random g of (r, g') \<Rightarrow> (\<lfloor>r * real_of_int (mx - mn + 1)\<rfloor> + mn, g'))"

text \<open>
  \<open>randomChoice\<close> indexes the array; an index outside the array reads \<open>undefined\<close> in
  JavaScript, which is \<open>None\<close> here.
\<close>

definition randomChoice :: "'a list \<Rightarrow> rng \<Rightarrow> 'a option \<times> rng" where
  "randomChoice arr g =
     (case Math_random g of (r, g') \<Rightarrow>
        (let i = \<lfloor>r * real (length arr)\<rfloor>
         in (if 0 \<le> i \<and> i < int (length arr) then Some (arr ! nat i) else None, g')))"

subsection \<open>Rendering a number in an equation\<close>

text \<open>
  The template literals print the operands in decimal. The operands are integers, so
  \<open>Number.prototype.toString\<close> is the usual decimal rendering with a leading minus sign.
\<close>

definition digitChar :: "nat \<Rightarrow> char" where
  "digitChar d = char_of (48 + d)"

function showNat :: "nat \<Rightarrow> string" where
  "showNat n = (if n < 10 then [digitChar n] else showNat (n div 10) @ [digitChar (n mod 10)])"
  by pat_completeness auto
termination
  by (relation "measure id") auto

declare showNat.simps [simp del]

definition showInt :: "int \<Rightarrow> string" where
  "showInt i = (if i < 0 then CHR ''-'' # showNat (nat (- i)) else showNat (nat i))"

text \<open>
  The multiplication and division signs of the source are the characters U+00D7 and
  U+00F7, single code units of the JavaScript string; they are the characters with these
  codes here.
\<close>

definition timesSign :: char where "timesSign = char_of (0xD7 :: nat)"
definition divideSign :: char where "divideSign = char_of (0xF7 :: nat)"

subsection \<open>The generator\<close>

record MathGenerator =
  difficultyLevel :: int
  config :: DifficultyConfig

text \<open>
  The constructor clamps the level to 1..5, so the index into \<open>DIFFICULTY_CONFIGS\<close> is
  always in range (lemma \<open>clamped_level_in_range\<close>).
\<close>

definition newMathGenerator :: "int \<Rightarrow> MathGenerator" where
  "newMathGenerator lvl =
     (let l = min 5 (max 1 lvl)
      in \<lparr>difficultyLevel = l, config = DIFFICULTY_CONFIGS ! nat (l - 1)\<rparr>)"

definition setDifficulty :: "int \<Rightarrow> MathGenerator \<Rightarrow> MathGenerator" where
  "setDifficulty lvl gen =
     (let l = min 5 (max 1 lvl)
      in gen\<lparr>difficultyLevel := l, config := DIFFICULTY_CONFIGS ! nat (l - 1)\<rparr>)"

definition generateAddition :: "MathGenerator \<Rightarrow> rng \<Rightarrow> MathProblem \<times> rng" where
  "generateAddition gen g =
     (case randomInt 1 (maxNumber (config gen)) g of (op1, g1) \<Rightarrow>
      case randomInt 1 (maxNumber (config gen)) g1 of (op2, g2) \<Rightarrow>
        (\<lparr>operand1 = op1, operand2 = op2, operation = addition, answer = op1 + op2,
          equation = showInt op1 @ '' + '' @ showInt op2 @ '' = ?''\<rparr>, g2))"

definition generateSubtraction :: "MathGenerator \<Rightarrow> rng \<Rightarrow> MathProblem \<times> rng" where
  "generateSubtraction gen g =
     (case randomInt 1 (maxNumber (config gen)) g of (a, g1) \<Rightarrow>
      case randomInt 1 (maxNumber (config gen)) g1 of (b, g2) \<Rightarrow>
        (let (op1, op2) = (if b > a then (b, a) else (a, b))
         in (\<lparr>operand1 = op1, operand2 = op2, operation = subtraction, answer = op1 - op2,
              equation = showInt op1 @ '' - '' @ showInt op2 @ '' = ?''\<rparr>, g2)))"

definition generateMultiplication :: "MathGenerator \<Rightarrow> rng \<Rightarrow> MathProblem \<times> rng" where
  "generateMultiplication gen g =
     (case randomInt 1 (maxMultiplier (config gen)) g of (op1, g1) \<Rightarrow>
      case randomInt 1 (maxMultiplier (config gen)) g1 of (op2, g2) \<Rightarrow>
        (\<lparr>operand1 = op1, operand2 = op2, operation = multiplication, answer = op1 * op2,
          equation = showInt op1 @ [CHR '' '', timesSign, CHR '' ''] @ showInt op2 @ '' = ?''\<rparr>,
         g2))"

definition generateDivision :: "MathGenerator \<Rightarrow> rng \<Rightarrow> MathProblem \<times> rng" where
  "generateDivision gen g =
     (case randomInt 1 (maxMultiplier (config gen)) g of (divisor, g1) \<Rightarrow>
      case randomInt 1 (maxMultiplier (config gen)) g1 of (quotient', g2) \<Rightarrow>
        (let dividend = divisor * quotient'
         in (\<lparr>operand1 = dividend, operand2 = divisor, operation = division, answer = quotient',
              equation =
                showInt dividend @ [CHR '' '', divideSign, CHR '' ''] @ showInt divisor @ '' = ?''\<rparr>,
             g2)))"

text \<open>
  \<open>generate\<close>: the preferred operation is used when it is given and allowed at this
  level; otherwise one of the allowed operations is drawn. The \<open>default\<close> branch of the
  \<open>switch\<close> (an \<open>undefined\<close> operation) generates an addition.
\<close>

definition generate :: "MathGenerator \<Rightarrow> MathOperation option \<Rightarrow> rng \<Rightarrow> MathProblem \<times> rng" where
  "generate gen preferredOperation g =
     (case (case preferredOperation of
              Some p \<Rightarrow> if p \<in> set (operations (config gen)) then (Some p, g)
                        else randomChoice (operations (config gen)) g
            | None \<Rightarrow> randomChoice (operations (config gen)) g) of
        (Some addition, g1) \<Rightarrow> generateAddition gen g1
      | (Some subtraction, g1) \<Rightarrow> generateSubtraction gen g1
      | (Some multiplication, g1) \<Rightarrow> generateMultiplication gen g1
      | (Some division, g1) \<Rightarrow> generateDivision gen g1
      | (None, g1) \<Rightarrow> generateAddition gen g1)"

subsection \<open>Wrong answers\<close>

text \<open>
  The \<open>Set<number>\<close> of the source keeps its elements in insertion order, and
  \<open>Array.from\<close> returns them in that order: it is a list without repetition, and
  \<open>Set.prototype.add\<close> appends an element that is not yet there.
\<close>

definition Set_add :: "int \<Rightarrow> int list \<Rightarrow> int list" where
  "Set_add x xs = (if x \<in> set xs then xs else xs @ [x])"

text \<open>
  The first loop: at most \<open>maxAttempts = 100\<close> random proposals. Each attempt draws the
  offset, then the sign.
\<close>

function wrongAnswersRandomLoop ::
  "int \<Rightarrow> nat \<Rightarrow> int list \<Rightarrow> nat \<Rightarrow> rng \<Rightarrow> int list \<times> rng" where
  "wrongAnswersRandomLoop correctAnswer count wrongAnswers attempts g =
     (if length wrongAnswers < count \<and> attempts < 100 then
        (case randomInt 1 (max 5 (\<lfloor>real_of_int correctAnswer * 0.3\<rfloor> + 1)) g of (offset, g1) \<Rightarrow>
         case Math_random g1 of (r, g2) \<Rightarrow>
           (let sign = (if r > 0.5 then 1 else - 1);
                wrongAnswer = correctAnswer + offset * sign
            in wrongAnswersRandomLoop correctAnswer count
                 (if wrongAnswer > 0 \<and> wrongAnswer \<noteq> correctAnswer
                  then Set_add wrongAnswer wrongAnswers else wrongAnswers)
                 (attempts + 1) g2))
      else (wrongAnswers, g))"
  by pat_completeness auto
termination
  by (relation "measure (\<lambda>(c, count, ws, attempts, g). 100 - attempts)") auto

declare wrongAnswersRandomLoop.simps [simp del]

text \<open>
  The second loop has no bound on its iterations. It is total all the same: the
  candidates \<open>correctAnswer + 1, correctAnswer - 1, correctAnswer + 2, ...\<close> move away
  from \<open>correctAnswer\<close>, and beyond \<open>fallbackBound\<close> every candidate on the positive
  side is new and positive. \<open>fallbackSteps\<close> counts the iterations left before the
  offset reaches that bound.
\<close>

definition fallbackBound :: "int \<Rightarrow> int list \<Rightarrow> int" where
  "fallbackBound correctAnswer wrongAnswers =
     1 + \<bar>correctAnswer\<bar> + sum_list (map (\<lambda>w. \<bar>w - correctAnswer\<bar>) wrongAnswers)"

definition fallbackSteps :: "int \<Rightarrow> int list \<Rightarrow> int \<Rightarrow> nat" where
  "fallbackSteps correctAnswer wrongAnswers fallbackOffset =
     (if fallbackOffset > 0
      then 2 * nat (fallbackBound correctAnswer wrongAnswers - fallbackOffset)
      else 2 * nat (fallbackBound correctAnswer wrongAnswers - (- fallbackOffset + 1)) + 1)"

function wrongAnswersFallbackLoop :: "int \<Rightarrow> nat \<Rightarrow> int list \<Rightarrow> int \<Rightarrow> int list" where
  "wrongAnswersFallbackLoop correctAnswer count wrongAnswers fallbackOffset =
     (if length wrongAnswers < count then
        (let candidate = correctAnswer + fallbackOffset
         in wrongAnswersFallbackLoop correctAnswer count
              (if candidate > 0 \<and> candidate \<noteq> correctAnswer \<and> candidate \<notin> set wrongAnswers
               then Set_add candidate wrongAnswers else wrongAnswers)
              (if fallbackOffset > 0 then - fallbackOffset else (- fallbackOffset + 1)))
      else wrongAnswers)"
  by pat_completeness auto

text \<open>\<open>generateWrongAnswers\<close>: the random loop, then the fallback loop from offset 1.\<close>

definition generateWrongAnswers :: "int \<Rightarrow> nat \<Rightarrow> rng \<Rightarrow> int list \<times> rng" where
  "generateWrongAnswers correctAnswer count g =
     (case wrongAnswersRandomLoop correctAnswer count [] 0 g of
        (wrongAnswers, g') \<Rightarrow> (wrongAnswersFallbackLoop correctAnswer count wrongAnswers 1, g'))"

text \<open>
  The exact result of an operation on two integers, for comparison with the \<open>answer\<close>
  field: a division has a result only when the divisor is not zero and divides the
  dividend.
\<close>

fun exactResult :: "MathOperation \<Rightarrow> int \<Rightarrow> int \<Rightarrow> int option" where
  "exactResult addition a b = Some (a + b)"
| "exactResult subtraction a b = Some (a - b)"
| "exactResult multiplication a b = Some (a * b)"
| "exactResult division a b = (if b \<noteq> 0 \<and> a mod b = 0 then Some (a div b) else None)"


section \<open>Game session (GameScene)\<close>

text \<open>
  The repository holds two copies of the scene class. The one modelled here publishes
  \<open>player:lives\<close>, which the user interface listens to, takes the ship's look from
  the evolution ladder, and starts with five lives, the number the interface shows. The
  other copy (src/game/scenes/GameScene.ts, with the earlier dragon theme) has the same
  session logic line for line, except that it starts with three lives and does not
  publish \<open>player:lives\<close>; its \<open>init\<close> is \<open>init_GameScene_ts\<close> below.

  Drawing, sound and the starfield have no influence on the session state and are left
  out; so is the player's velocity, which only the physics engine reads. Positions are
  exact reals, the counters are integers. The events published on the event bus are
  appended to the field \<open>emitted\<close>, oldest first (\<open>ProblemNew\<close> is \<open>problem:new\<close>,
  \<open>AnswerCorrect\<close> is \<open>answer:correct\<close> with its \<open>xp\<close> and \<open>streak\<close>, \<open>GameOverEvent\<close> is
  \<open>game:over\<close> with score, correct count, earned experience and best streak), and the
  callbacks handed to \<open>this.time.delayedCall\<close> are recorded by their delay in
  \<open>delayedCalls\<close>: every such callback is \<open>generateNewProblem\<close> behind the test
  \<open>!this.isGameOver\<close>. \<open>sceneStatus\<close> is what Phaser knows of the scene
  (\<open>this.scene.pause()\<close>, \<open>resume()\<close>, \<open>stop()\<close>).

  The event bus is one object for the whole program. \<open>setupEventListeners\<close>, called by
  \<open>create\<close>, adds a listener for each of \<open>answer:submit\<close>, \<open>game:pause\<close>,
  \<open>game:resume\<close> and \<open>game:quit\<close>, and nothing ever removes one; the interface starts
  every game on the same scene object. \<open>listenerSets\<close> counts the runs of
  \<open>setupEventListeners\<close> on the object: that many listeners answer each event, all of
  them acting on the one object.
\<close>

datatype GameMode = Shoot | Type

datatype GameEvent =
    ProblemNew string int "int list option"
  | AnswerCorrect int int
  | AnswerWrong
  | ScoreUpdate int int
  | PlayerLives int
  | GameOverEvent int int int int

datatype SceneStatus = Running | ScenePaused | Stopped

record EnemyData =
  enemyX :: real
  enemyY :: real
  answerValue :: int
  isCorrect :: bool

record Bullet =
  bulletX :: real
  bulletY :: real

record GameScene =
  playerX :: real
  playerY :: real
  enemies :: "EnemyData list"
  bullets :: "Bullet list"
  mathGenerator :: MathGenerator
  currentProblem :: "MathProblem option"
  gameMode :: GameMode
  difficulty :: int
  evolutionStage :: int
  score :: int
  streak :: int
  bestStreak :: int
  correctAnswers :: int
  xpEarned :: int
  problemStartTime :: int
  isGameOver :: bool
  isPaused :: bool
  playerLives :: int
  lastFireTime :: int
  fireDelay :: int
  emitted :: "GameEvent list"
  delayedCalls :: "int list"
  sceneStatus :: SceneStatus
  listenerSets :: nat

record InitData =
  data_mode :: GameMode
  data_difficulty :: int
  data_evolutionStage :: int

text \<open>The field initialisers of the class: the object before \<open>init\<close> runs.\<close>

definition newGameScene :: GameScene where
  "newGameScene =
     \<lparr>playerX = 0, playerY = 0, enemies = [], bullets = [],
      mathGenerator = newMathGenerator 1, currentProblem = None, gameMode = Shoot,
      difficulty = 1, evolutionStage = 1, score = 0, streak = 0, bestStreak = 0,
      correctAnswers = 0, xpEarned = 0, problemStartTime = 0, isGameOver = False,
      isPaused = False, playerLives = 5, lastFireTime = 0, fireDelay = 250,
      emitted = [], delayedCalls = [], sceneStatus = Stopped, listenerSets = 0\<rparr>"

definition emit :: "GameEvent \<Rightarrow> GameScene \<Rightarrow> GameScene" where
  "emit e s = s\<lparr>emitted := emitted s @ [e]\<rparr>"

definition delayedCall :: "int \<Rightarrow> GameScene \<Rightarrow> GameScene" where
  "delayedCall delay s = s\<lparr>delayedCalls := delayedCalls s @ [delay]\<rparr>"

definition emitLivesUpdate :: "GameScene \<Rightarrow> GameScene" where
  "emitLivesUpdate s = emit (PlayerLives (playerLives s)) s"

text \<open>
  \<open>init\<close>: \<open>data.difficulty || 1\<close> and \<open>data.evolutionStage || 1\<close> replace a zero by 1;
  the mode is one of the two string literals, so \<open>data.mode || 'shoot'\<close> is the mode.
\<close>

definition init :: "InitData \<Rightarrow> GameScene \<Rightarrow> GameScene" where
  "init d s =
     emitLivesUpdate
       (s\<lparr>gameMode := data_mode d,
          difficulty := (if data_difficulty d = 0 then 1 else data_difficulty d),
          evolutionStage := (if data_evolutionStage d = 0 then 1 else data_evolutionStage d),
          score := 0, streak := 0, bestStreak := 0, correctAnswers := 0, xpEarned := 0,
          isGameOver := False, isPaused := False, playerLives := 5,
          currentProblem := None, enemies := [], bullets := []\<rparr>)"


text \<open>
  \<open>create\<close>: the generator for the chosen difficulty, the player at the bottom centre
  of the camera, one more set of listeners on the event bus (\<open>setupEventListeners\<close>),
  and the first problem after 500 ms. Phaser runs the scene from here on.
\<close>

definition create :: "real \<Rightarrow> real \<Rightarrow> GameScene \<Rightarrow> GameScene" where
  "create width height s =
     delayedCall 500
       (s\<lparr>mathGenerator := newMathGenerator (difficulty s),
          playerX := width / 2, playerY := height - 120, sceneStatus := Running,
          listenerSets := listenerSets s + 1\<rparr>)"

text \<open>
  The first game runs \<open>init\<close> and \<open>create\<close> on the new object. Every later game
  (\<open>startGame\<close> of the interface stops the scene and starts it again) runs them on the
  object as the game before left it; stopping the scene drops its pending timers.
\<close>

definition startSession :: "InitData \<Rightarrow> real \<Rightarrow> real \<Rightarrow> GameScene" where
  "startSession d width height = create width height (init d newGameScene)"

definition restartSession :: "InitData \<Rightarrow> real \<Rightarrow> real \<Rightarrow> GameScene \<Rightarrow> GameScene" where
  "restartSession d width height s = create width height (init d (s\<lparr>delayedCalls := []\<rparr>))"

subsection \<open>Scoring\<close>

definition gameOver :: "GameScene \<Rightarrow> GameScene" where
  "gameOver s =
     (let s1 = s\<lparr>isGameOver := True\<rparr>
      in emit (GameOverEvent (score s1) (correctAnswers s1) (xpEarned s1) (bestStreak s1)) s1)"

definition streakBonusOf :: "int \<Rightarrow> int" where
  "streakBonusOf st = min 20 (st * 2)"

definition handleCorrectAnswer :: "int \<Rightarrow> GameScene \<Rightarrow> GameScene" where
  "handleCorrectAnswer now s =
     (let s1 = s\<lparr>correctAnswers := correctAnswers s + 1, streak := streak s + 1\<rparr>;
          s2 = (if streak s1 > bestStreak s1 then s1\<lparr>bestStreak := streak s1\<rparr> else s1);
          timeBonus = (if now - problemStartTime s2 < 3000 then 5 else 0);
          streakBonus = streakBonusOf (streak s2);
          xp = 10 + timeBonus + streakBonus;
          s3 = s2\<lparr>xpEarned := xpEarned s2 + xp\<rparr>;
          s4 = s3\<lparr>score := score s3 + (100 + streakBonus * 5)\<rparr>;
          s5 = emit (AnswerCorrect xp (streak s4)) s4;
          s6 = emit (ScoreUpdate (score s5) (streak s5)) s5
      in delayedCall 800 s6)"

definition handleWrongAnswer :: "GameScene \<Rightarrow> GameScene" where
  "handleWrongAnswer s =
     (let s1 = s\<lparr>streak := 0\<rparr>;
          s2 = s1\<lparr>playerLives := playerLives s1 - 1\<rparr>;
          s3 = emitLivesUpdate s2;
          s4 = emit AnswerWrong s3;
          s5 = emit (ScoreUpdate (score s4) (streak s4)) s4
      in if playerLives s5 \<le> 0 then gameOver s5 else s5)"

subsection \<open>Problems and targets\<close>

definition createEnemy :: "real \<Rightarrow> real \<Rightarrow> int \<Rightarrow> bool \<Rightarrow> EnemyData" where
  "createEnemy x y ans correct =
     \<lparr>enemyX = x, enemyY = y, answerValue = ans, isCorrect = correct\<rparr>"

text \<open>
  The shuffle of \<open>spawnAnswerEnemies\<close>: \<open>for (i = length - 1; i > 0; i--)\<close> swaps the
  entries \<open>i\<close> and \<open>j = floor(random * (i + 1))\<close>. With \<open>0 \<le> random < 1\<close> the index
  \<open>j\<close> is at most \<open>i\<close>; the model leaves the array alone for any other \<open>j\<close>.
\<close>

fun shuffleLoop :: "nat \<Rightarrow> int list \<Rightarrow> rng \<Rightarrow> int list \<times> rng" where
  "shuffleLoop 0 answers g = (answers, g)"
| "shuffleLoop (Suc k) answers g =
     (case Math_random g of (r, g1) \<Rightarrow>
        (let i = Suc k;
             j = \<lfloor>r * real (i + 1)\<rfloor>
         in shuffleLoop k
              (if 0 \<le> j \<and> nat j < length answers \<and> i < length answers
               then answers[i := answers ! nat j, nat j := answers ! i] else answers)
              g1))"

fun placeEnemies :: "real \<Rightarrow> int \<Rightarrow> nat \<Rightarrow> int list \<Rightarrow> EnemyData list" where
  "placeEnemies spacing correctAnswer index [] = []"
| "placeEnemies spacing correctAnswer index (a # rest) =
     createEnemy (spacing * real (index + 1)) 160 a (a = correctAnswer)
       # placeEnemies spacing correctAnswer (index + 1) rest"

definition spawnAnswerEnemies :: "real \<Rightarrow> int \<Rightarrow> int list \<Rightarrow> rng \<Rightarrow> GameScene \<Rightarrow> GameScene" where
  "spawnAnswerEnemies width correctAnswer wrongAnswers g s =
     (case shuffleLoop (length (correctAnswer # wrongAnswers) - 1) (correctAnswer # wrongAnswers) g of
        (answers, g') \<Rightarrow>
          (let spacing = width / real (length answers + 1)
           in s\<lparr>enemies := enemies s @ placeEnemies spacing correctAnswer 0 answers\<rparr>))"

definition spawnTypeEnemy :: "real \<Rightarrow> GameScene \<Rightarrow> GameScene" where
  "spawnTypeEnemy width s = s\<lparr>enemies := enemies s @ [createEnemy (width / 2) 160 0 True]\<rparr>"

definition clearEnemies :: "GameScene \<Rightarrow> GameScene" where
  "clearEnemies s = s\<lparr>enemies := []\<rparr>"

text \<open>
  \<open>generateNewProblem\<close>: \<open>now\<close> is \<open>Date.now()\<close>, \<open>width\<close> the camera width and \<open>g\<close> the
  values of \<open>Math.random()\<close> during the call.
\<close>

definition generateNewProblem :: "int \<Rightarrow> real \<Rightarrow> rng \<Rightarrow> GameScene \<Rightarrow> GameScene" where
  "generateNewProblem now width g s =
     (if isGameOver s then s
      else
        (case generate (mathGenerator s) None g of (p, g1) \<Rightarrow>
           (let s1 = clearEnemies (s\<lparr>currentProblem := Some p, problemStartTime := now\<rparr>)
            in if gameMode s1 = Shoot then
                 (case generateWrongAnswers (answer p) 3 g1 of (wrongAnswers, g2) \<Rightarrow>
                    spawnAnswerEnemies width (answer p) wrongAnswers g2
                      (emit (ProblemNew (equation p) (answer p) (Some wrongAnswers)) s1))
               else spawnTypeEnemy width (emit (ProblemNew (equation p) (answer p) None) s1))))"

text \<open>The callback of every \<open>delayedCall\<close>.\<close>

definition delayedNewProblem :: "int \<Rightarrow> real \<Rightarrow> rng \<Rightarrow> GameScene \<Rightarrow> GameScene" where
  "delayedNewProblem now width g s =
     (if \<not> isGameOver s then generateNewProblem now width g s else s)"

subsection \<open>Shooting\<close>

definition fire :: "int \<Rightarrow> GameScene \<Rightarrow> GameScene" where
  "fire now s =
     (if now - lastFireTime s < fireDelay s then s
      else s\<lparr>lastFireTime := now,
             bullets := bullets s @ [\<lparr>bulletX = playerX s, bulletY = playerY s - 30\<rparr>]\<rparr>)"

text \<open>\<open>xs.splice(i, 1)\<close> removes the entry at index \<open>i\<close>.\<close>

definition splice1 :: "nat \<Rightarrow> 'a list \<Rightarrow> 'a list" where
  "splice1 i xs = take i xs @ drop (Suc i) xs"

definition collides :: "Bullet \<Rightarrow> EnemyData \<Rightarrow> bool" where
  "collides bullet enemy =
     (let dx = bulletX bullet - enemyX enemy;
          dy = bulletY bullet - enemyY enemy;
          distance = sqrt (dx * dx + dy * dy)
      in distance < 35)"

text \<open>
  The inner loop of \<open>checkBulletEnemyCollision\<close> runs \<open>j\<close> from the last enemy down and
  stops at the first enemy within reach: \<open>findHit n\<close> looks at the indices below \<open>n\<close>.
\<close>

fun findHit :: "nat \<Rightarrow> Bullet \<Rightarrow> EnemyData list \<Rightarrow> nat option" where
  "findHit 0 bullet es = None"
| "findHit (Suc j) bullet es =
     (if j < length es \<and> collides bullet (es ! j) then Some j else findHit j bullet es)"

text \<open>
  The outer loop runs \<open>i\<close> from the last bullet down; \<open>collisionLoop n\<close> handles the
  indices below \<open>n\<close>. A bullet that hits is removed, the answer on the enemy is resolved
  (shoot mode only; \<open>this.currentProblem?.answer\<close> is \<open>undefined\<close> without a problem and
  equals no number), then the enemy is removed. The index is always inside the array,
  since a pass removes only the bullet it looks at.
\<close>

fun collisionLoop :: "nat \<Rightarrow> int \<Rightarrow> GameScene \<Rightarrow> GameScene" where
  "collisionLoop 0 now s = s"
| "collisionLoop (Suc i) now s =
     (if i < length (bullets s) then
        (case findHit (length (enemies s)) (bullets s ! i) (enemies s) of
           None \<Rightarrow> collisionLoop i now s
         | Some j \<Rightarrow>
             (let enemy = enemies s ! j;
                  s1 = s\<lparr>bullets := splice1 i (bullets s)\<rparr>;
                  s2 = (if gameMode s1 = Shoot then
                          (if (case currentProblem s1 of
                                 None \<Rightarrow> False
                               | Some p \<Rightarrow> answerValue enemy = answer p)
                           then handleCorrectAnswer now s1
                           else handleWrongAnswer s1)
                        else s1);
                  s3 = s2\<lparr>enemies := splice1 j (enemies s2)\<rparr>
              in collisionLoop i now s3))
      else collisionLoop i now s)"

definition checkBulletEnemyCollision :: "int \<Rightarrow> GameScene \<Rightarrow> GameScene" where
  "checkBulletEnemyCollision now s = collisionLoop (length (bullets s)) now s"

subsection \<open>Typed answers\<close>

definition checkTypedAnswer :: "int \<Rightarrow> int \<Rightarrow> GameScene \<Rightarrow> GameScene" where
  "checkTypedAnswer ans now s =
     (case currentProblem s of
        None \<Rightarrow> s
      | Some p \<Rightarrow>
          if ans = answer p
          then handleCorrectAnswer now (if length (enemies s) > 0 then s\<lparr>enemies := []\<rparr> else s)
          else handleWrongAnswer s)"

text \<open>
  The listeners that one run of \<open>setupEventListeners\<close> registers on the event bus.
  \<open>answerSubmitListener\<close> is one listener of \<open>answer:submit\<close>; \<open>onAnswerSubmit\<close> is
  what the event does to the scene: \<open>EventBus.emit\<close> calls every registered listener in
  turn, each looking at the state the one before left.
\<close>

definition answerSubmitListener :: "int \<Rightarrow> int \<Rightarrow> GameScene \<Rightarrow> GameScene" where
  "answerSubmitListener ans now s =
     (if gameMode s = Type \<and> \<not> isGameOver s \<and> \<not> isPaused s
      then checkTypedAnswer ans now s else s)"

definition onAnswerSubmit :: "int \<Rightarrow> int \<Rightarrow> GameScene \<Rightarrow> GameScene" where
  "onAnswerSubmit ans now s = (answerSubmitListener ans now ^^ listenerSets s) s"

definition onGamePause :: "GameScene \<Rightarrow> GameScene" where
  "onGamePause s = s\<lparr>isPaused := True, sceneStatus := ScenePaused\<rparr>"

definition onGameResume :: "GameScene \<Rightarrow> GameScene" where
  "onGameResume s = s\<lparr>isPaused := False, sceneStatus := Running\<rparr>"

definition cleanup :: "GameScene \<Rightarrow> GameScene" where
  "cleanup s = (clearEnemies s)\<lparr>bullets := []\<rparr>"

definition onGameQuit :: "GameScene \<Rightarrow> GameScene" where
  "onGameQuit s = (cleanup s)\<lparr>sceneStatus := Stopped\<rparr>"

subsection \<open>The frame update\<close>

text \<open>
  The last loop of \<open>update\<close> runs \<open>i\<close> from the last enemy down; \<open>missedLoop n\<close> handles
  the indices below \<open>n\<close>. An enemy below the camera (\<open>y > height + 50\<close>) costs a life when
  it carries the correct answer or when the mode is \<open>type\<close>; it is removed, and when no
  enemy is left and the game goes on, the next problem is scheduled.
\<close>

fun missedLoop :: "nat \<Rightarrow> real \<Rightarrow> GameScene \<Rightarrow> GameScene" where
  "missedLoop 0 height s = s"
| "missedLoop (Suc i) height s =
     (if i < length (enemies s) \<and> enemyY (enemies s ! i) > height + 50 then
        (let enemy = enemies s ! i;
             s1 = (if isCorrect enemy \<or> gameMode s = Type then handleWrongAnswer s else s);
             s2 = s1\<lparr>enemies := splice1 i (enemies s1)\<rparr>;
             s3 = (if length (enemies s2) = 0 \<and> \<not> isGameOver s2 then delayedCall 500 s2 else s2)
         in missedLoop i height s3)
      else missedLoop i height s)"

text \<open>
  \<open>update\<close>: \<open>now\<close> is \<open>Date.now()\<close>, \<open>height\<close> the camera height, and \<open>space\<close> tells
  whether the cursor keys exist and the space bar is down. Removing the bullets above
  the screen from the last index down is a filter.
\<close>

definition update :: "int \<Rightarrow> real \<Rightarrow> bool \<Rightarrow> GameScene \<Rightarrow> GameScene" where
  "update now height space s =
     (if isGameOver s \<or> isPaused s then s
      else
        (let s1 = (if gameMode s = Shoot \<and> space then fire now s else s);
             s2 = checkBulletEnemyCollision now s1;
             s3 = s2\<lparr>bullets := filter (\<lambda>b. \<not> bulletY b < - 20) (bullets s2)\<rparr>
         in missedLoop (length (enemies s3)) height s3))"


section \<open>The answer box of the user interface (main.ts)\<close>

text \<open>
  \<open>parseInt(text, 10)\<close> of the language: leading white space is skipped, one sign is
  read, then the longest run of decimal digits; without a digit the result is \<open>NaN\<close>,
  which is \<open>None\<close> here. Whatever follows the digits is ignored. The characters of the
  text are the code units below 256.
\<close>

definition isWhiteSpace :: "char \<Rightarrow> bool" where
  "isWhiteSpace c = (of_char c \<in> {9, 10, 11, 12, 13, 32, 160 :: nat})"

definition isDigit :: "char \<Rightarrow> bool" where
  "isDigit c = (48 \<le> (of_char c :: nat) \<and> (of_char c :: nat) \<le> 57)"

fun digitsValue :: "nat \<Rightarrow> string \<Rightarrow> nat" where
  "digitsValue acc [] = acc"
| "digitsValue acc (c # cs) = digitsValue (acc * 10 + (of_char c - 48)) cs"

definition parseInt10 :: "string \<Rightarrow> int option" where
  "parseInt10 text =
     (let S = dropWhile isWhiteSpace text;
          sign = (case S of c # _ \<Rightarrow> if c = CHR ''-'' then - 1 else 1 | [] \<Rightarrow> (1::int));
          S' = (case S of c # rest \<Rightarrow> if c = CHR ''-'' \<or> c = CHR ''+'' then rest else S | [] \<Rightarrow> S);
          Z = takeWhile isDigit S'
      in if Z = [] then None else Some (sign * int (digitsValue 0 Z)))"

text \<open>
  \<open>submitAnswer\<close> of the interface: the typed text is parsed, and only a number is
  published as \<open>answer:submit\<close> (delivered at once to the scene's listener) and clears
  the box. The result is the text left in the box and the scene.
\<close>

definition submitAnswer :: "string \<Rightarrow> int \<Rightarrow> GameScene \<Rightarrow> string \<times> GameScene" where
  "submitAnswer typedAnswer now s =
     (case parseInt10 typedAnswer of
        None \<Rightarrow> (typedAnswer, s)
      | Some ans \<Rightarrow> ([], onAnswerSubmit ans now s))"


section \<open>A session as a run of inputs\<close>

text \<open>
  Everything that reaches the scene after its start: the events of the interface
  (\<open>AnswerSubmit\<close> carries the number and the time of the call), a delayed callback
  that fires, a frame, and the physics engine moving the player, the bullets and the
  enemies. Phaser runs frames and timers only while the scene is running.
  \<open>TimerFires k\<close> fires the \<open>k\<close>-th pending callback. \<open>Physics\<close> gives the new
  positions, for as many bullets and enemies as it lists.

  A submitted answer is handled once by each of the \<open>listenerSets\<close> listeners
  (\<open>onAnswerSubmit\<close>). The listeners of pause, resume and quit assign the same values
  however many of them run, so one run stands for all. A session is what follows one
  \<open>init\<close>; starting again is \<open>restartSession\<close>, not an input of the session.
\<close>

datatype Input =
    AnswerSubmit int int
  | GamePause
  | GameResume
  | GameQuit
  | TimerFires nat int real rng
  | Frame int real bool
  | Physics "real \<times> real" "(real \<times> real) list" "(real \<times> real) list"

fun moveBullets :: "(real \<times> real) list \<Rightarrow> Bullet list \<Rightarrow> Bullet list" where
  "moveBullets ((x, y) # ps) (b # bs) = b\<lparr>bulletX := x, bulletY := y\<rparr> # moveBullets ps bs"
| "moveBullets ps bs = bs"

fun moveEnemies :: "(real \<times> real) list \<Rightarrow> EnemyData list \<Rightarrow> EnemyData list" where
  "moveEnemies ((x, y) # ps) (e # es) = e\<lparr>enemyX := x, enemyY := y\<rparr> # moveEnemies ps es"
| "moveEnemies ps es = es"

fun step :: "Input \<Rightarrow> GameScene \<Rightarrow> GameScene" where
  "step (AnswerSubmit ans now) s = onAnswerSubmit ans now s"
| "step GamePause s = onGamePause s"
| "step GameResume s = onGameResume s"
| "step GameQuit s = onGameQuit s"
| "step (TimerFires k now width g) s =
     (if sceneStatus s = Running \<and> k < length (delayedCalls s)
      then delayedNewProblem now width g (s\<lparr>delayedCalls := splice1 k (delayedCalls s)\<rparr>)
      else s)"
| "step (Frame now height space) s =
     (if sceneStatus s = Running then update now height space s else s)"
| "step (Physics p bs es) s =
     (if sceneStatus s = Running
      then s\<lparr>playerX := fst p, playerY := snd p,
             bullets := moveBullets bs (bullets s), enemies := moveEnemies es (enemies s)\<rparr>
      else s)"

fun run :: "Input list \<Rightarrow> GameScene \<Rightarrow> GameScene" where
  "run [] s = s"
| "run (i # rest) s = run rest (step i s)"


section \<open>Properties stated of the results\<close>

text \<open>What the wrong answers must satisfy: no repetition, all positive, none the answer.\<close>

definition wrongAnswersOk :: "int \<Rightarrow> int list \<Rightarrow> bool" where
  "wrongAnswersOk correctAnswer ws =
     (distinct ws \<and> (\<forall>w\<in>set ws. 0 < w \<and> w \<noteq> correctAnswer))"

text \<open>
  The ranges of the operands of a problem generated under a configuration: the drawn
  operands lie between 1 and the configured maximum of their kind; the dividend of a
  division is a product of two such draws.
\<close>

definition operandsInRange :: "DifficultyConfig \<Rightarrow> MathProblem \<Rightarrow> bool" where
  "operandsInRange cfg p =
     (case operation p of
        addition \<Rightarrow>
          1 \<le> operand1 p \<and> operand1 p \<le> maxNumber cfg \<and>
          1 \<le> operand2 p \<and> operand2 p \<le> maxNumber cfg
      | subtraction \<Rightarrow>
          1 \<le> operand1 p \<and> operand1 p \<le> maxNumber cfg \<and>
          1 \<le> operand2 p \<and> operand2 p \<le> maxNumber cfg
      | multiplication \<Rightarrow>
          1 \<le> operand1 p \<and> operand1 p \<le> maxMultiplier cfg \<and>
          1 \<le> operand2 p \<and> operand2 p \<le> maxMultiplier cfg
      | division \<Rightarrow>
          1 \<le> operand2 p \<and> operand2 p \<le> maxMultiplier cfg \<and>
          1 \<le> answer p \<and> answer p \<le> maxMultiplier cfg \<and>
          1 \<le> operand1 p \<and> operand1 p \<le> maxMultiplier cfg * maxMultiplier cfg)"

text \<open>
  What is proved of a generated problem: the answer is the exact result, a subtraction
  has its operands in order, a division is exact by construction, and the operands are
  in range.
\<close>

definition problemOk :: "DifficultyConfig \<Rightarrow> MathProblem \<Rightarrow> bool" where
  "problemOk cfg p =
     (exactResult (operation p) (operand1 p) (operand2 p) = Some (answer p)
      \<and> (operation p = subtraction \<longrightarrow> operand2 p \<le> operand1 p \<and> 0 \<le> answer p)
      \<and> (operation p = division \<longrightarrow> operand1 p = operand2 p * answer p)
      \<and> operandsInRange cfg p)"

text \<open>The terminal summaries among the published events.\<close>

fun isGameOverEvent :: "GameEvent \<Rightarrow> bool" where
  "isGameOverEvent (GameOverEvent sc co xp bs) = True"
| "isGameOverEvent e = False"

definition summariesPublished :: "GameScene \<Rightarrow> nat" where
  "summariesPublished s = length (filter isGameOverEvent (emitted s))"

text \<open>
  What holds of every state of a session: the counters are not negative, the game is
  over exactly when no life is left, there are at most five lives, and the summaries
  published so far are one for each resolution that left no life.
\<close>

definition sessionInv :: "GameScene \<Rightarrow> bool" where
  "sessionInv s =
     (0 \<le> streak s \<and> 0 \<le> score s \<and> 0 \<le> xpEarned s \<and> playerLives s \<le> 5
      \<and> isGameOver s = (playerLives s \<le> 0)
      \<and> summariesPublished s = (if playerLives s \<le> 0 then nat (1 - playerLives s) else 0))"

text \<open>Score and earned experience do not decrease from the first state to the second.\<close>

definition grows :: "GameScene \<Rightarrow> GameScene \<Rightarrow> bool" where
  "grows s s' = (score s \<le> score s' \<and> xpEarned s \<le> xpEarned s')"


section \<open>Concrete sessions\<close>

text \<open>
  A type-mode session at difficulty 1 on an 800 by 600 camera, whose first problem (all
  random values 0) is \<open>1 + 1\<close>, issued at time 1000.
\<close>

definition typeSessionData :: InitData where
  "typeSessionData = \<lparr>data_mode = Type, data_difficulty = 1, data_evolutionStage = 1\<rparr>"

definition firstProblemState :: GameScene where
  "firstProblemState =
     step (TimerFires 0 1000 800 (\<lambda>_. 0)) (startSession typeSessionData 800 600)"

text \<open>
  The same first problem in the game started next on the same scene object: two sets of
  listeners are on the event bus.
\<close>

definition secondGameProblemState :: GameScene where
  "secondGameProblemState =
     step (TimerFires 0 1000 800 (\<lambda>_. 0)) (restartSession typeSessionData 800 600 firstProblemState)"




section \<open>The evolution ladder\<close>

lemma getEvolutionStage_cases:
  "getEvolutionStage xp =
     (if xp < 500 then 1 else if xp < 1500 then 2 else if xp < 3500 then 3
      else if xp < 7000 then 4 else if xp < 12000 then 5 else if xp < 20000 then 6 else 7)"
  by (simp add: getEvolutionStage_def EVOLUTION_STAGES_def)

lemma stages_at_most_as_filter:
  "{e \<in> set EVOLUTION_STAGES. xpRequired e \<le> xp} =
     set (filter (\<lambda>e. xpRequired e \<le> xp) EVOLUTION_STAGES)"
  by simp

lemma spec_stageForXp_cases:
  "0 \<le> xp \<Longrightarrow> spec_stageForXp xp =
     (if xp < 500 then 1 else if xp < 1500 then 2 else if xp < 3500 then 3
      else if xp < 7000 then 4 else if xp < 12000 then 5 else if xp < 20000 then 6 else 7)"
  unfolding spec_stageForXp_def stages_at_most_as_filter
  by (simp add: EVOLUTION_STAGES_def)

lemma stage_ordinal_cases:
  "1 \<le> stage \<Longrightarrow> stage \<le> 7 \<Longrightarrow>
     stage = 1 \<or> stage = 2 \<or> stage = 3 \<or> stage = 4 \<or> stage = 5 \<or> stage = 6 \<or> stage = (7::int)"
  by arith

lemma threshold_values:
  "threshold 1 = 0" "threshold 2 = 500" "threshold 3 = 1500" "threshold 4 = 3500"
  "threshold 5 = 7000" "threshold 6 = 12000" "threshold 7 = 20000"
  by (simp_all add: threshold_def getEvolutionByStage_def EVOLUTION_STAGES_def)

lemma getXPToNextEvolution_below_final:
  assumes "1 \<le> stage" "stage \<le> 6"
  shows "getXPToNextEvolution xp stage = max 0 (threshold (stage + 1) - xp)"
proof -
  from assms have "stage = 1 \<or> stage = 2 \<or> stage = 3 \<or> stage = 4 \<or> stage = 5 \<or> stage = 6"
    by arith
  then show ?thesis
    by (auto simp add: getXPToNextEvolution_def getNextEvolution_def threshold_def
          getEvolutionByStage_def EVOLUTION_STAGES_def)
qed

lemma getXPToNextEvolution_final: "getXPToNextEvolution xp 7 = 0"
  by (simp add: getXPToNextEvolution_def getNextEvolution_def EVOLUTION_STAGES_def)

text \<open>
  C6. For every non-negative \<open>xp\<close>, \<open>getEvolutionStage xp\<close> is the highest stage ordinal
  whose threshold on the ladder 0, 500, 1500, 3500, 7000, 12000, 20000 is at most \<open>xp\<close>;
  it is monotonically non-decreasing in \<open>xp\<close>; its values at 0, 500, 19999 and 20000 are
  1, 2, 6 and 7; and \<open>getXPToNextEvolution\<close> is \<open>max 0 (nextThreshold - xp)\<close> below the
  final stage and 0 at the final stage.
\<close>

theorem C6_stage_for_xp:
  "(0 \<le> xp \<longrightarrow> getEvolutionStage xp = spec_stageForXp xp)
   \<and> (xp \<le> xp' \<longrightarrow> getEvolutionStage xp \<le> getEvolutionStage xp')
   \<and> getEvolutionStage 0 = 1 \<and> getEvolutionStage 500 = 2
   \<and> getEvolutionStage 19999 = 6 \<and> getEvolutionStage 20000 = 7
   \<and> (1 \<le> stage \<and> stage \<le> 6 \<longrightarrow>
        getXPToNextEvolution xp stage = max 0 (threshold (stage + 1) - xp))
   \<and> getXPToNextEvolution xp 7 = 0"
proof (intro conjI impI)
  assume "0 \<le> xp"
  then show "getEvolutionStage xp = spec_stageForXp xp"
    by (simp only: spec_stageForXp_cases getEvolutionStage_cases)
next
  assume "xp \<le> xp'"
  then show "getEvolutionStage xp \<le> getEvolutionStage xp'"
    by (simp add: getEvolutionStage_cases)
next
  assume "1 \<le> stage \<and> stage \<le> 6"
  then show "getXPToNextEvolution xp stage = max 0 (threshold (stage + 1) - xp)"
    by (simp add: getXPToNextEvolution_below_final)
qed (simp_all add: getEvolutionStage_cases getXPToNextEvolution_final)

theorem C6_stage_for_xp_witness:
  "spec_stageForXp 700 = 2 \<and> getEvolutionStage 700 = 2 \<and> getEvolutionStage 2000 = 3
   \<and> getXPToNextEvolution 700 2 = 800 \<and> threshold (2 + 1) = 1500"
  using C6_stage_for_xp [of 700 2000 2]
  by (simp add: getEvolutionStage_cases threshold_values)

text \<open>
  C7, as stated, fails: with 0 experience at stage 2 the progress is \<open>-50\<close>, below the
  interval from 0 to 100.
\<close>

theorem C7_progress_counterexample:
  "getEvolutionProgress 0 2 = - 50 \<and> getEvolutionProgress 0 2 < 0"
  by (simp add: getEvolutionProgress_def getNextEvolution_def getEvolutionByStage_def
        EVOLUTION_STAGES_def)

lemma getEvolutionProgress_below_final:
  assumes "1 \<le> stage" "stage \<le> 6"
  shows "getEvolutionProgress xp stage =
           min 100 (real_of_int (xp - threshold stage)
                      / real_of_int (threshold (stage + 1) - threshold stage) * 100)"
proof -
  from assms have "stage = 1 \<or> stage = 2 \<or> stage = 3 \<or> stage = 4 \<or> stage = 5 \<or> stage = 6"
    by arith
  then show ?thesis
    by (auto simp add: getEvolutionProgress_def getNextEvolution_def threshold_def
          getEvolutionByStage_def EVOLUTION_STAGES_def)
qed

lemma getEvolutionProgress_final: "getEvolutionProgress xp 7 = 100"
  by (simp add: getEvolutionProgress_def getNextEvolution_def EVOLUTION_STAGES_def)

lemma threshold_step_positive:
  assumes "1 \<le> stage" "stage \<le> 6"
  shows "threshold stage < threshold (stage + 1)"
proof -
  from assms have "stage = 1 \<or> stage = 2 \<or> stage = 3 \<or> stage = 4 \<or> stage = 5 \<or> stage = 6"
    by arith
  then show ?thesis by (auto simp add: threshold_values)
qed

lemma threshold_of_stage_for_xp: "0 \<le> xp \<Longrightarrow> threshold (getEvolutionStage xp) \<le> xp"
  by (simp add: getEvolutionStage_cases threshold_values)

lemma getEvolutionStage_range: "1 \<le> getEvolutionStage xp \<and> getEvolutionStage xp \<le> 7"
  by (simp add: getEvolutionStage_cases)

lemma getEvolutionProgress_upper:
  assumes "1 \<le> stage" "stage \<le> 7"
  shows "getEvolutionProgress xp stage \<le> 100"
proof (cases "stage = 7")
  case True
  then show ?thesis by (simp add: getEvolutionProgress_final)
next
  case False
  with assms have "stage \<le> 6" by simp
  from getEvolutionProgress_below_final[OF assms(1) this] show ?thesis by simp
qed

lemma getEvolutionProgress_lower:
  assumes "1 \<le> stage" "stage \<le> 7" "threshold stage \<le> xp"
  shows "0 \<le> getEvolutionProgress xp stage"
proof (cases "stage = 7")
  case True
  then show ?thesis by (simp add: getEvolutionProgress_final)
next
  case False
  with assms have le: "stage \<le> 6" by simp
  from threshold_step_positive[OF assms(1) le] assms(3)
  have "0 \<le> real_of_int (xp - threshold stage)
              / real_of_int (threshold (stage + 1) - threshold stage) * 100"
    by simp
  with getEvolutionProgress_below_final[OF assms(1) le, of xp] show ?thesis by simp
qed

text \<open>
  C7, amended. For every stage ordinal 1 to 7 and every \<open>xp\<close> the progress is at most
  100, and it is 100 at the final stage. Below the final stage it is the percentage of
  the way from the stage's threshold to the next one, cut off at 100 and not cut off at
  0: it is at least 0 when \<open>xp\<close> has reached the stage's threshold, which is the case
  for the stage that \<open>getEvolutionStage\<close> gives a non-negative \<open>xp\<close>.
\<close>

theorem C7_progress_amended:
  "(1 \<le> stage \<and> stage \<le> 7 \<longrightarrow>
      getEvolutionProgress xp stage \<le> 100
      \<and> (threshold stage \<le> xp \<longrightarrow> 0 \<le> getEvolutionProgress xp stage)
      \<and> (stage \<le> 6 \<longrightarrow>
           getEvolutionProgress xp stage =
             min 100 (real_of_int (xp - threshold stage)
                        / real_of_int (threshold (stage + 1) - threshold stage) * 100)))
   \<and> getEvolutionProgress xp 7 = 100
   \<and> (0 \<le> xp \<longrightarrow>
        0 \<le> getEvolutionProgress xp (getEvolutionStage xp)
        \<and> getEvolutionProgress xp (getEvolutionStage xp) \<le> 100)"
proof (intro conjI impI)
  assume "0 \<le> xp"
  then show "0 \<le> getEvolutionProgress xp (getEvolutionStage xp)"
    using getEvolutionProgress_lower[of "getEvolutionStage xp" xp]
      getEvolutionStage_range[of xp] threshold_of_stage_for_xp[of xp] by simp
next
  show "getEvolutionProgress xp (getEvolutionStage xp) \<le> 100"
    using getEvolutionProgress_upper[of "getEvolutionStage xp" xp]
      getEvolutionStage_range[of xp] by simp
qed (simp_all add: getEvolutionProgress_upper getEvolutionProgress_lower
       getEvolutionProgress_below_final getEvolutionProgress_final)

theorem C7_progress_amended_witness:
  "getEvolutionProgress 750 2 = 25 \<and> threshold 2 = 500 \<and> threshold (2 + 1) = 1500
   \<and> getEvolutionStage 750 = 2 \<and> 0 \<le> getEvolutionProgress 750 (getEvolutionStage 750)"
  using C7_progress_amended [of 2 750]
  by (simp add: threshold_values getEvolutionStage_cases)

section \<open>Termination of the fallback loop\<close>

text \<open>
  Every element of the list lies within \<open>fallbackBound\<close> of \<open>correctAnswer\<close>, so a
  rejected candidate means that the offset has not reached the bound yet, and the number
  of remaining steps decreases. An accepted candidate makes the list longer.
\<close>


lemma member_le_sum_abs:
  "w \<in> set ws \<Longrightarrow> \<bar>w - c\<bar> \<le> sum_list (map (\<lambda>w. \<bar>w - (c::int)\<bar>) ws)"
proof (induction ws)
  case Nil then show ?case by simp
next
  case (Cons a ws)
  have "0 \<le> sum_list (map (\<lambda>w. \<bar>w - c\<bar>) ws)" by (rule sum_list_nonneg) auto
  with Cons show ?case by auto
qed

lemma fallback_rejected_decreases:
  assumes rej: "\<not> (c + off > 0 \<and> c + off \<noteq> c \<and> c + off \<notin> set ws)"
  shows "fallbackSteps c ws (if off > 0 then - off else - off + 1) < fallbackSteps c ws off"
proof (cases "off > 0")
  case True
  have nn: "0 \<le> sum_list (map (\<lambda>w. \<bar>w - c\<bar>) ws)" by (rule sum_list_nonneg) auto
  from True rej have "c + off \<le> 0 \<or> c + off \<in> set ws" by auto
  then have "off < fallbackBound c ws"
  proof
    assume "c + off \<le> 0"
    then show ?thesis using nn True by (simp add: fallbackBound_def)
  next
    assume "c + off \<in> set ws"
    from member_le_sum_abs[OF this, of c] show ?thesis by (simp add: fallbackBound_def)
  qed
  with True show ?thesis by (simp add: fallbackSteps_def)
next
  case False
  then show ?thesis by (simp add: fallbackSteps_def)
qed

termination wrongAnswersFallbackLoop
proof (relation "measures [\<lambda>(c, count, ws, off). count - length ws,
                 \<lambda>(c, count, ws, off). fallbackSteps c ws off]", goal_cases)
  case 1
  then show ?case by simp
next
  case (2 c count ws off cand)
  show ?case
  proof (cases "cand > 0 \<and> cand \<noteq> c \<and> cand \<notin> set ws")
    case True
    then have eq: "(if cand > 0 \<and> cand \<noteq> c \<and> cand \<notin> set ws then Set_add cand ws else ws) = ws @ [cand]"
      by (simp add: Set_add_def)
    have "count - length (ws @ [cand]) < count - length ws" using 2(1) by simp
    then show ?thesis unfolding eq by simp
  next
    case False
    then have eq: "(if cand > 0 \<and> cand \<noteq> c \<and> cand \<notin> set ws then Set_add cand ws else ws) = ws"
      by auto
    from False 2(2) have "\<not> (c + off > 0 \<and> c + off \<noteq> c \<and> c + off \<notin> set ws)" by simp
    from fallback_rejected_decreases[OF this] show ?thesis
      unfolding eq by simp
  qed
qed

declare wrongAnswersFallbackLoop.simps [simp del]


section \<open>The wrong answers\<close>



lemma wrongAnswersOk_Set_add:
  "wrongAnswersOk c ws \<Longrightarrow> 0 < w \<Longrightarrow> w \<noteq> c \<Longrightarrow> wrongAnswersOk c (Set_add w ws)"
  by (auto simp add: wrongAnswersOk_def Set_add_def)

lemma length_Set_add: "length (Set_add w ws) \<le> Suc (length ws)"
  by (simp add: Set_add_def)

lemma randomLoop_stop:
  "\<not> (length ws < count \<and> attempts < 100) \<Longrightarrow>
     wrongAnswersRandomLoop c count ws attempts g = (ws, g)"
  by (subst wrongAnswersRandomLoop.simps) (rule if_not_P)

lemma fallbackLoop_stop:
  "\<not> length ws < count \<Longrightarrow> wrongAnswersFallbackLoop c count ws off = ws"
  by (subst wrongAnswersFallbackLoop.simps) (rule if_not_P)

lemma fallbackLoop_step:
  "length ws < count \<Longrightarrow>
     wrongAnswersFallbackLoop c count ws off =
       wrongAnswersFallbackLoop c count
         (if c + off > 0 \<and> c + off \<noteq> c \<and> c + off \<notin> set ws then Set_add (c + off) ws else ws)
         (if off > 0 then - off else (- off + 1))"
  by (subst wrongAnswersFallbackLoop.simps) (simp only: if_P Let_def)

lemma randomLoop_ok:
  "wrongAnswersOk c ws \<Longrightarrow> wrongAnswersOk c (fst (wrongAnswersRandomLoop c count ws attempts g))"
proof (induction c count ws attempts g rule: wrongAnswersRandomLoop.induct)
  case (1 c count ws attempts g)
  show ?case
  proof (cases "length ws < count \<and> attempts < 100")
    case False
    with 1(2) show ?thesis by (simp add: randomLoop_stop)
  next
    case True
    obtain offset g1 where o: "randomInt 1 (max 5 (\<lfloor>real_of_int c * 0.3\<rfloor> + 1)) g = (offset, g1)"
      by (cases "randomInt 1 (max 5 (\<lfloor>real_of_int c * 0.3\<rfloor> + 1)) g")
    obtain r g2 where r: "Math_random g1 = (r, g2)" by (cases "Math_random g1")
    define sign :: int where "sign = (if r > 0.5 then 1 else - 1)"
    define wrong where "wrong = c + offset * sign"
    define ws' where "ws' = (if wrong > 0 \<and> wrong \<noteq> c then Set_add wrong ws else ws)"
    have ok': "wrongAnswersOk c ws'"
      using 1(2) by (simp add: ws'_def wrongAnswersOk_Set_add)
    have "wrongAnswersOk c (fst (wrongAnswersRandomLoop c count ws' (attempts + 1) g2))"
      using 1(1)[OF True o[symmetric] r[symmetric] sign_def wrong_def] ok'
      unfolding ws'_def by simp
    moreover have "wrongAnswersRandomLoop c count ws attempts g
                   = wrongAnswersRandomLoop c count ws' (attempts + 1) g2"
      using True o r
      by (subst wrongAnswersRandomLoop.simps) (simp add: Let_def ws'_def wrong_def sign_def)
    ultimately show ?thesis by simp
  qed
qed

lemma randomLoop_length:
  "length ws \<le> count \<Longrightarrow> length (fst (wrongAnswersRandomLoop c count ws attempts g)) \<le> count"
proof (induction c count ws attempts g rule: wrongAnswersRandomLoop.induct)
  case (1 c count ws attempts g)
  show ?case
  proof (cases "length ws < count \<and> attempts < 100")
    case False
    with 1(2) show ?thesis by (simp add: randomLoop_stop)
  next
    case True
    obtain offset g1 where o: "randomInt 1 (max 5 (\<lfloor>real_of_int c * 0.3\<rfloor> + 1)) g = (offset, g1)"
      by (cases "randomInt 1 (max 5 (\<lfloor>real_of_int c * 0.3\<rfloor> + 1)) g")
    obtain r g2 where r: "Math_random g1 = (r, g2)" by (cases "Math_random g1")
    define sign :: int where "sign = (if r > 0.5 then 1 else - 1)"
    define wrong where "wrong = c + offset * sign"
    define ws' where "ws' = (if wrong > 0 \<and> wrong \<noteq> c then Set_add wrong ws else ws)"
    have len': "length ws' \<le> count"
      using True length_Set_add[of wrong ws] by (simp add: ws'_def)
    have "length (fst (wrongAnswersRandomLoop c count ws' (attempts + 1) g2)) \<le> count"
      using 1(1)[OF True o[symmetric] r[symmetric] sign_def wrong_def] len'
      unfolding ws'_def by simp
    moreover have "wrongAnswersRandomLoop c count ws attempts g
                   = wrongAnswersRandomLoop c count ws' (attempts + 1) g2"
      using True o r
      by (subst wrongAnswersRandomLoop.simps) (simp add: Let_def ws'_def wrong_def sign_def)
    ultimately show ?thesis by simp
  qed
qed

lemma fallbackLoop_ok:
  "wrongAnswersOk c ws \<Longrightarrow> wrongAnswersOk c (wrongAnswersFallbackLoop c count ws off)"
proof (induction c count ws off rule: wrongAnswersFallbackLoop.induct)
  case (1 c count ws off)
  show ?case
  proof (cases "length ws < count")
    case False
    then have "wrongAnswersFallbackLoop c count ws off = ws" by (rule fallbackLoop_stop)
    with 1(2) show ?thesis by (simp only:)
  next
    case True
    define ws' where "ws' = (if c + off > 0 \<and> c + off \<noteq> c \<and> c + off \<notin> set ws
                             then Set_add (c + off) ws else ws)"
    define off' where "off' = (if off > 0 then - off else (- off + 1))"
    have ok': "wrongAnswersOk c ws'" using 1(2) by (simp add: ws'_def wrongAnswersOk_Set_add)
    have "wrongAnswersOk c (wrongAnswersFallbackLoop c count ws' off')"
      unfolding ws'_def off'_def
      by (rule 1(1)[OF True refl]) (use ok' in \<open>simp only: ws'_def\<close>)
    moreover have "wrongAnswersFallbackLoop c count ws off = wrongAnswersFallbackLoop c count ws' off'"
      unfolding ws'_def off'_def by (rule fallbackLoop_step[OF True])
    ultimately show ?thesis by (simp only:)
  qed
qed

lemma fallbackLoop_length:
  "length ws \<le> count \<Longrightarrow> length (wrongAnswersFallbackLoop c count ws off) = count"
proof (induction c count ws off rule: wrongAnswersFallbackLoop.induct)
  case (1 c count ws off)
  show ?case
  proof (cases "length ws < count")
    case False
    then have "wrongAnswersFallbackLoop c count ws off = ws" by (rule fallbackLoop_stop)
    with 1(2) False show ?thesis by simp
  next
    case True
    define ws' where "ws' = (if c + off > 0 \<and> c + off \<noteq> c \<and> c + off \<notin> set ws
                             then Set_add (c + off) ws else ws)"
    define off' where "off' = (if off > 0 then - off else (- off + 1))"
    have len': "length ws' \<le> count"
      using True length_Set_add[of "c + off" ws] by (simp add: ws'_def)
    have "length (wrongAnswersFallbackLoop c count ws' off') = count"
      unfolding ws'_def off'_def
      by (rule 1(1)[OF True refl]) (use len' in \<open>simp only: ws'_def\<close>)
    moreover have "wrongAnswersFallbackLoop c count ws off = wrongAnswersFallbackLoop c count ws' off'"
      unfolding ws'_def off'_def by (rule fallbackLoop_step[OF True])
    ultimately show ?thesis by (simp only:)
  qed
qed


text \<open>
  A random source whose every value is 0 proposes \<open>1 - 1 = 0\<close> a hundred times when the
  correct answer is 1: the random loop ends with nothing, and the fallback loop does all
  the work.
\<close>

lemma randomLoop_all_rejected:
  "wrongAnswersRandomLoop 1 count [] attempts (\<lambda>_. 0) = ([], \<lambda>_. 0)"
proof (induction "100 - attempts" arbitrary: attempts)
  case 0
  then show ?case by (subst wrongAnswersRandomLoop.simps) simp
next
  case (Suc k)
  then have "100 - (attempts + 1) = k" by simp
  from Suc(1)[OF this[symmetric]] show ?case
    by (subst wrongAnswersRandomLoop.simps) (simp add: randomInt_def Math_random_def)
qed


text \<open>
  C1. \<open>generateWrongAnswers\<close> returns (both loops are total functions) exactly \<open>count\<close>
  integers without repetition, all strictly positive and none equal to \<open>correctAnswer\<close>.
  This holds for every \<open>correctAnswer\<close>, every \<open>count\<close> and every random source, so in
  particular for \<open>correctAnswer \<ge> 1\<close> with \<open>count\<close> from 1 to 5, and for
  \<open>correctAnswer = 1\<close>.
\<close>

theorem C1_generateWrongAnswers:
  "length (fst (generateWrongAnswers correctAnswer count g)) = count
   \<and> distinct (fst (generateWrongAnswers correctAnswer count g))
   \<and> (\<forall>w \<in> set (fst (generateWrongAnswers correctAnswer count g)). 0 < w \<and> w \<noteq> correctAnswer)"
proof -
  obtain ws g' where rl: "wrongAnswersRandomLoop correctAnswer count [] 0 g = (ws, g')"
    by (cases "wrongAnswersRandomLoop correctAnswer count [] 0 g")
  have "wrongAnswersOk correctAnswer []" by (simp add: wrongAnswersOk_def)
  from randomLoop_ok[OF this, of count 0 g] rl
  have ok: "wrongAnswersOk correctAnswer ws" by simp
  from randomLoop_length[of "[]" count correctAnswer 0 g] rl
  have len: "length ws \<le> count" by simp
  have res: "fst (generateWrongAnswers correctAnswer count g)
             = wrongAnswersFallbackLoop correctAnswer count ws 1"
    by (simp add: generateWrongAnswers_def rl)
  from fallbackLoop_ok[OF ok, of count 1] fallbackLoop_length[OF len, of correctAnswer 1]
  show ?thesis unfolding res by (simp add: wrongAnswersOk_def)
qed

theorem C1_generateWrongAnswers_witness:
  "fst (generateWrongAnswers 1 5 (\<lambda>_. 0)) = [2, 3, 4, 5, 6]
   \<and> length (fst (generateWrongAnswers 1 5 (\<lambda>_. 0))) = 5
   \<and> distinct (fst (generateWrongAnswers 1 5 (\<lambda>_. 0)))
   \<and> 2 \<in> set (fst (generateWrongAnswers 1 5 (\<lambda>_. 0)))"
  using C1_generateWrongAnswers [of 1 5 "\<lambda>_. 0"]
  by (simp add: generateWrongAnswers_def randomLoop_all_rejected
        wrongAnswersFallbackLoop.simps Set_add_def)


section \<open>The generated problems\<close>



lemma valid_rng_shift: "valid_rng g \<Longrightarrow> valid_rng (snd (Math_random g))"
  by (simp add: valid_rng_def Math_random_def)

lemma valid_rng_randomInt: "valid_rng g \<Longrightarrow> valid_rng (snd (randomInt mn mx g))"
  by (simp add: valid_rng_def Math_random_def randomInt_def)

lemma valid_rng_randomChoice: "valid_rng g \<Longrightarrow> valid_rng (snd (randomChoice arr g))"
  by (simp add: valid_rng_def Math_random_def randomChoice_def Let_def)

lemma floor_scaled_unit:
  fixes r :: real and n :: int
  assumes "0 \<le> r" "r < 1" "1 \<le> n"
  shows "0 \<le> \<lfloor>r * real_of_int n\<rfloor> \<and> \<lfloor>r * real_of_int n\<rfloor> \<le> n - 1"
proof
  from assms have "0 \<le> r * real_of_int n" by simp
  then show "0 \<le> \<lfloor>r * real_of_int n\<rfloor>" by simp
  from assms have "r * real_of_int n < 1 * real_of_int n"
    by (intro mult_strict_right_mono) simp_all
  then have "\<lfloor>r * real_of_int n\<rfloor> < n" by (simp add: floor_less_iff)
  then show "\<lfloor>r * real_of_int n\<rfloor> \<le> n - 1" by simp
qed

lemma randomInt_range:
  assumes "valid_rng g" "1 \<le> mx"
  shows "1 \<le> fst (randomInt 1 mx g) \<and> fst (randomInt 1 mx g) \<le> mx"
proof -
  from assms(1) have "0 \<le> g 0" "g 0 < 1" by (simp_all add: valid_rng_def)
  from floor_scaled_unit[OF this assms(2)] show ?thesis
    by (simp add: randomInt_def Math_random_def)
qed

lemma config_of_level:
  "config (newMathGenerator lvl) \<in> set DIFFICULTY_CONFIGS"
proof -
  define l where "l = min 5 (max 1 lvl)"
  then have "l = 1 \<or> l = 2 \<or> l = 3 \<or> l = 4 \<or> l = 5" by (auto simp: min_def max_def)
  then show ?thesis
    by (auto simp add: newMathGenerator_def l_def[symmetric] DIFFICULTY_CONFIGS_def Let_def)
qed

lemma config_bounds:
  "1 \<le> maxNumber (config (newMathGenerator lvl)) \<and> 1 \<le> maxMultiplier (config (newMathGenerator lvl))"
  using config_of_level[of lvl] by (auto simp add: DIFFICULTY_CONFIGS_def)

lemma generateAddition_ok:
  assumes "valid_rng g" "1 \<le> maxNumber (config gen)"
  shows "problemOk (config gen) (fst (generateAddition gen g))"
proof -
  obtain a g1 where a: "randomInt 1 (maxNumber (config gen)) g = (a, g1)" by (cases "randomInt 1 (maxNumber (config gen)) g")
  obtain b g2 where b: "randomInt 1 (maxNumber (config gen)) g1 = (b, g2)" by (cases "randomInt 1 (maxNumber (config gen)) g1")
  from randomInt_range[OF assms] a have ra: "1 \<le> a \<and> a \<le> maxNumber (config gen)" by simp
  from valid_rng_randomInt[OF assms(1), of 1 "maxNumber (config gen)"] a have "valid_rng g1" by simp
  from randomInt_range[OF this assms(2)] b have rb: "1 \<le> b \<and> b \<le> maxNumber (config gen)" by simp
  from ra rb show ?thesis
    by (simp add: generateAddition_def a b problemOk_def operandsInRange_def)
qed

lemma generateSubtraction_ok:
  assumes "valid_rng g" "1 \<le> maxNumber (config gen)"
  shows "problemOk (config gen) (fst (generateSubtraction gen g))"
proof -
  obtain a g1 where a: "randomInt 1 (maxNumber (config gen)) g = (a, g1)" by (cases "randomInt 1 (maxNumber (config gen)) g")
  obtain b g2 where b: "randomInt 1 (maxNumber (config gen)) g1 = (b, g2)" by (cases "randomInt 1 (maxNumber (config gen)) g1")
  from randomInt_range[OF assms] a have ra: "1 \<le> a \<and> a \<le> maxNumber (config gen)" by simp
  from valid_rng_randomInt[OF assms(1), of 1 "maxNumber (config gen)"] a have "valid_rng g1" by simp
  from randomInt_range[OF this assms(2)] b have rb: "1 \<le> b \<and> b \<le> maxNumber (config gen)" by simp
  from ra rb show ?thesis
    by (simp add: generateSubtraction_def a b problemOk_def operandsInRange_def)
qed

lemma generateMultiplication_ok:
  assumes "valid_rng g" "1 \<le> maxMultiplier (config gen)"
  shows "problemOk (config gen) (fst (generateMultiplication gen g))"
proof -
  obtain a g1 where a: "randomInt 1 (maxMultiplier (config gen)) g = (a, g1)" by (cases "randomInt 1 (maxMultiplier (config gen)) g")
  obtain b g2 where b: "randomInt 1 (maxMultiplier (config gen)) g1 = (b, g2)" by (cases "randomInt 1 (maxMultiplier (config gen)) g1")
  from randomInt_range[OF assms] a have ra: "1 \<le> a \<and> a \<le> maxMultiplier (config gen)" by simp
  from valid_rng_randomInt[OF assms(1), of 1 "maxMultiplier (config gen)"] a have "valid_rng g1" by simp
  from randomInt_range[OF this assms(2)] b have rb: "1 \<le> b \<and> b \<le> maxMultiplier (config gen)" by simp
  from ra rb show ?thesis
    by (simp add: generateMultiplication_def a b problemOk_def operandsInRange_def)
qed

lemma generateDivision_ok:
  assumes "valid_rng g" "1 \<le> maxMultiplier (config gen)"
  shows "problemOk (config gen) (fst (generateDivision gen g))"
proof -
  obtain a g1 where a: "randomInt 1 (maxMultiplier (config gen)) g = (a, g1)" by (cases "randomInt 1 (maxMultiplier (config gen)) g")
  obtain b g2 where b: "randomInt 1 (maxMultiplier (config gen)) g1 = (b, g2)" by (cases "randomInt 1 (maxMultiplier (config gen)) g1")
  from randomInt_range[OF assms] a have ra: "1 \<le> a \<and> a \<le> maxMultiplier (config gen)" by simp
  from valid_rng_randomInt[OF assms(1), of 1 "maxMultiplier (config gen)"] a have "valid_rng g1" by simp
  from randomInt_range[OF this assms(2)] b have rb: "1 \<le> b \<and> b \<le> maxMultiplier (config gen)" by simp
  from ra rb have "1 * 1 \<le> a * b" by (intro mult_mono) simp_all
  moreover from ra rb have "a * b \<le> maxMultiplier (config gen) * maxMultiplier (config gen)"
    by (intro mult_mono) simp_all
  ultimately show ?thesis using ra rb
    by (simp add: generateDivision_def a b problemOk_def operandsInRange_def Let_def)
qed

lemma generate_ok:
  assumes v: "valid_rng g"
  shows "problemOk (config (newMathGenerator lvl)) (fst (generate (newMathGenerator lvl) pref g))"
proof -
  let ?gen = "newMathGenerator lvl"
  from config_bounds[of lvl] have n: "1 \<le> maxNumber (config ?gen)" and m: "1 \<le> maxMultiplier (config ?gen)"
    by simp_all
  define sel where "sel = (case pref of
              Some p \<Rightarrow> if p \<in> set (operations (config ?gen)) then (Some p, g)
                        else randomChoice (operations (config ?gen)) g
            | None \<Rightarrow> randomChoice (operations (config ?gen)) g)"
  obtain opn g1 where s: "sel = (opn, g1)" by (cases sel)
  have "valid_rng (snd sel)"
    using v valid_rng_randomChoice[OF v, of "operations (config ?gen)"]
    by (simp add: sel_def split: option.splits)
  with s have v1: "valid_rng g1" by simp
  have "generate ?gen pref g =
     (case opn of Some addition \<Rightarrow> generateAddition ?gen g1
      | Some subtraction \<Rightarrow> generateSubtraction ?gen g1
      | Some multiplication \<Rightarrow> generateMultiplication ?gen g1
      | Some division \<Rightarrow> generateDivision ?gen g1
      | None \<Rightarrow> generateAddition ?gen g1)"
    unfolding generate_def sel_def[symmetric] s by (simp split: option.splits MathOperation.splits)
  then show ?thesis
    using generateAddition_ok[OF v1 n] generateSubtraction_ok[OF v1 n]
      generateMultiplication_ok[OF v1 m] generateDivision_ok[OF v1 m]
    by (simp split: option.splits MathOperation.splits)
qed


text \<open>
  C2, as stated, fails in its last part: at level 5 a division can have the dividend
  144, above both configured magnitudes of that level (100 and 12).
\<close>

theorem C2_generate_counterexample:
  "valid_rng (\<lambda>_. 99 / 100)
   \<and> operand1 (fst (generate (newMathGenerator 5) (Some division) (\<lambda>_. 99 / 100))) = 144
   \<and> operation (fst (generate (newMathGenerator 5) (Some division) (\<lambda>_. 99 / 100))) = division
   \<and> maxNumber (config (newMathGenerator 5)) = 100
   \<and> maxMultiplier (config (newMathGenerator 5)) = 12"
  by (simp add: valid_rng_def generate_def newMathGenerator_def DIFFICULTY_CONFIGS_def
        generateDivision_def randomInt_def Math_random_def)

text \<open>
  C2, amended. For every level (the constructor clamps it to 1..5), every preferred
  operation and every random source with values in \<open>[0, 1)\<close>: the answer of the generated
  problem is the exact result of its operation on its operands; a subtraction has
  \<open>operand2 \<le> operand1\<close> and a non-negative answer; a division has
  \<open>operand1 = operand2 * answer\<close> and remainder zero; the operands of an addition or
  subtraction lie in \<open>1..maxNumber\<close>, those of a multiplication in \<open>1..maxMultiplier\<close>,
  the divisor and the quotient of a division in \<open>1..maxMultiplier\<close> and its dividend in
  \<open>1..maxMultiplier * maxMultiplier\<close>.
\<close>

theorem C2_generate_amended:
  "valid_rng g \<Longrightarrow>
     (let gen = newMathGenerator lvl; p = fst (generate gen pref g)
      in exactResult (operation p) (operand1 p) (operand2 p) = Some (answer p)
         \<and> (operation p = subtraction \<longrightarrow> operand2 p \<le> operand1 p \<and> 0 \<le> answer p)
         \<and> (operation p = division \<longrightarrow>
              operand1 p = operand2 p * answer p \<and> operand1 p mod operand2 p = 0)
         \<and> operandsInRange (config gen) p)"
  using generate_ok [of g lvl pref] by (auto simp add: problemOk_def Let_def)

theorem C2_generate_amended_witness:
  "valid_rng (\<lambda>n. if n = 0 then 2 / 10 else 9 / 10)
   \<and> operand1 (fst (generate (newMathGenerator 2) (Some subtraction)
                      (\<lambda>n. if n = 0 then 2 / 10 else 9 / 10))) = 14
   \<and> operand2 (fst (generate (newMathGenerator 2) (Some subtraction)
                      (\<lambda>n. if n = 0 then 2 / 10 else 9 / 10))) = 4
   \<and> answer (fst (generate (newMathGenerator 2) (Some subtraction)
                    (\<lambda>n. if n = 0 then 2 / 10 else 9 / 10))) = 10
   \<and> operandsInRange (config (newMathGenerator 2))
        (fst (generate (newMathGenerator 2) (Some subtraction)
               (\<lambda>n. if n = 0 then 2 / 10 else 9 / 10)))"
proof -
  have v: "valid_rng (\<lambda>n. if n = 0 then 2 / 10 else 9 / 10)" by (simp add: valid_rng_def)
  from C2_generate_amended [OF v, of 2 "Some subtraction"] v show ?thesis
    by (simp add: generate_def newMathGenerator_def DIFFICULTY_CONFIGS_def
          generateSubtraction_def randomInt_def Math_random_def Let_def)
qed


section \<open>The session: what the two resolutions change\<close>


lemmas scene_defs = emit_def emitLivesUpdate_def delayedCall_def gameOver_def Let_def

lemma handleWrongAnswer_fields:
  "playerLives (handleWrongAnswer s) = playerLives s - 1"
  "streak (handleWrongAnswer s) = 0"
  "score (handleWrongAnswer s) = score s"
  "xpEarned (handleWrongAnswer s) = xpEarned s"
  "correctAnswers (handleWrongAnswer s) = correctAnswers s"
  "bestStreak (handleWrongAnswer s) = bestStreak s"
  "currentProblem (handleWrongAnswer s) = currentProblem s"
  "gameMode (handleWrongAnswer s) = gameMode s"
  "isPaused (handleWrongAnswer s) = isPaused s"
  "sceneStatus (handleWrongAnswer s) = sceneStatus s"
  "enemies (handleWrongAnswer s) = enemies s"
  "bullets (handleWrongAnswer s) = bullets s"
  "delayedCalls (handleWrongAnswer s) = delayedCalls s"
  "listenerSets (handleWrongAnswer s) = listenerSets s"
  "isGameOver (handleWrongAnswer s) = (isGameOver s \<or> playerLives s - 1 \<le> 0)"
  "emitted (handleWrongAnswer s) =
     emitted s @ [PlayerLives (playerLives s - 1), AnswerWrong, ScoreUpdate (score s) 0]
       @ (if playerLives s - 1 \<le> 0
          then [GameOverEvent (score s) (correctAnswers s) (xpEarned s) (bestStreak s)] else [])"
  by (simp_all add: handleWrongAnswer_def scene_defs)

lemma handleCorrectAnswer_fields:
  "playerLives (handleCorrectAnswer now s) = playerLives s"
  "streak (handleCorrectAnswer now s) = streak s + 1"
  "score (handleCorrectAnswer now s) = score s + (100 + streakBonusOf (streak s + 1) * 5)"
  "xpEarned (handleCorrectAnswer now s) =
     xpEarned s + (10 + (if now - problemStartTime s < 3000 then 5 else 0) + streakBonusOf (streak s + 1))"
  "correctAnswers (handleCorrectAnswer now s) = correctAnswers s + 1"
  "bestStreak (handleCorrectAnswer now s) = max (bestStreak s) (streak s + 1)"
  "currentProblem (handleCorrectAnswer now s) = currentProblem s"
  "gameMode (handleCorrectAnswer now s) = gameMode s"
  "isPaused (handleCorrectAnswer now s) = isPaused s"
  "sceneStatus (handleCorrectAnswer now s) = sceneStatus s"
  "enemies (handleCorrectAnswer now s) = enemies s"
  "bullets (handleCorrectAnswer now s) = bullets s"
  "delayedCalls (handleCorrectAnswer now s) = delayedCalls s @ [800]"
  "listenerSets (handleCorrectAnswer now s) = listenerSets s"
  "isGameOver (handleCorrectAnswer now s) = isGameOver s"
  "emitted (handleCorrectAnswer now s) =
     emitted s @ [AnswerCorrect (10 + (if now - problemStartTime s < 3000 then 5 else 0)
                                   + streakBonusOf (streak s + 1)) (streak s + 1),
                  ScoreUpdate (score s + (100 + streakBonusOf (streak s + 1) * 5)) (streak s + 1)]"
  by (simp_all add: handleCorrectAnswer_def scene_defs max_def)


section \<open>The session: what every state satisfies\<close>


lemma sessionInv_neutral [simp]:
  "sessionInv (s\<lparr>bullets := bs\<rparr>) = sessionInv s"
  "sessionInv (s\<lparr>enemies := es\<rparr>) = sessionInv s"
  "sessionInv (s\<lparr>delayedCalls := ds\<rparr>) = sessionInv s"
  "sessionInv (s\<lparr>lastFireTime := t\<rparr>) = sessionInv s"
  "sessionInv (s\<lparr>isPaused := b\<rparr>) = sessionInv s"
  "sessionInv (s\<lparr>sceneStatus := st\<rparr>) = sessionInv s"
  "sessionInv (s\<lparr>playerX := x\<rparr>) = sessionInv s"
  "sessionInv (s\<lparr>playerY := y\<rparr>) = sessionInv s"
  "sessionInv (s\<lparr>currentProblem := p\<rparr>) = sessionInv s"
  "sessionInv (s\<lparr>problemStartTime := t\<rparr>) = sessionInv s"
  "sessionInv (s\<lparr>mathGenerator := mg\<rparr>) = sessionInv s"
  "sessionInv (s\<lparr>listenerSets := n\<rparr>) = sessionInv s"
  by (simp_all add: sessionInv_def summariesPublished_def)

lemma sessionInv_delayedCall [simp]: "sessionInv (delayedCall d s) = sessionInv s"
  by (simp add: delayedCall_def)

lemma sessionInv_emit_ProblemNew [simp]:
  "sessionInv (emit (ProblemNew eq a w) s) = sessionInv s"
  by (simp add: sessionInv_def summariesPublished_def emit_def)

lemma streakBonusOf_bounds: "streakBonusOf n \<le> 20" "0 \<le> n \<Longrightarrow> 0 \<le> streakBonusOf n"
  by (simp_all add: streakBonusOf_def)

lemma sessionInv_handleCorrectAnswer:
  "sessionInv s \<Longrightarrow> sessionInv (handleCorrectAnswer now s)"
  using streakBonusOf_bounds(2)[of "streak s + 1"]
  by (simp add: sessionInv_def summariesPublished_def handleCorrectAnswer_fields)

lemma sessionInv_handleWrongAnswer:
  "sessionInv s \<Longrightarrow> sessionInv (handleWrongAnswer s)"
  by (auto simp add: sessionInv_def summariesPublished_def handleWrongAnswer_fields nat_diff_distrib)

lemma grows_handleCorrectAnswer:
  "0 \<le> streak s \<Longrightarrow> score s \<le> score (handleCorrectAnswer now s) \<and> xpEarned s \<le> xpEarned (handleCorrectAnswer now s)"
  using streakBonusOf_bounds(2)[of "streak s + 1"]
  by (simp add: handleCorrectAnswer_fields)


lemma grows_refl [simp]: "grows s s" by (simp add: grows_def)

lemma grows_trans: "grows a b \<Longrightarrow> grows b c \<Longrightarrow> grows a c" by (auto simp add: grows_def)

lemma grows_neutral [simp]:
  "grows s (s'\<lparr>bullets := bs\<rparr>) = grows s s'"
  "grows s (s'\<lparr>enemies := es\<rparr>) = grows s s'"
  "grows s (s'\<lparr>delayedCalls := ds\<rparr>) = grows s s'"
  "grows s (s'\<lparr>lastFireTime := t\<rparr>) = grows s s'"
  "grows s (s'\<lparr>isPaused := b\<rparr>) = grows s s'"
  "grows s (s'\<lparr>sceneStatus := st\<rparr>) = grows s s'"
  "grows s (s'\<lparr>playerX := x\<rparr>) = grows s s'"
  "grows s (s'\<lparr>playerY := y\<rparr>) = grows s s'"
  "grows s (s'\<lparr>currentProblem := p\<rparr>) = grows s s'"
  "grows s (s'\<lparr>problemStartTime := t\<rparr>) = grows s s'"
  "grows s (delayedCall d s') = grows s s'"
  "grows s (emit e s') = grows s s'"
  by (simp_all add: grows_def delayedCall_def emit_def)

lemma grows_neutral_left [simp]:
  "grows (s\<lparr>enemies := es\<rparr>) s' = grows s s'"
  "grows (s\<lparr>delayedCalls := ds\<rparr>) s' = grows s s'"
  by (simp_all add: grows_def)

lemma resolution_correct:
  assumes "sessionInv s"
  shows "sessionInv (handleCorrectAnswer now s) \<and> grows s (handleCorrectAnswer now s)"
proof -
  from assms have "0 \<le> streak s" by (simp add: sessionInv_def)
  from grows_handleCorrectAnswer[OF this, of now] sessionInv_handleCorrectAnswer[OF assms, of now]
  show ?thesis by (simp add: grows_def)
qed

lemma resolution_wrong:
  "sessionInv s \<Longrightarrow> sessionInv (handleWrongAnswer s) \<and> grows s (handleWrongAnswer s)"
  by (simp add: sessionInv_handleWrongAnswer grows_def handleWrongAnswer_fields)

lemma collisionLoop_session:
  "sessionInv s \<Longrightarrow> sessionInv (collisionLoop n now s) \<and> grows s (collisionLoop n now s)"
proof (induction n arbitrary: s)
  case 0
  then show ?case by simp
next
  case (Suc i)
  show ?case
  proof (cases "i < length (bullets s)")
    case False
    then have "collisionLoop (Suc i) now s = collisionLoop i now s" by simp
    with Suc show ?thesis by simp
  next
    case True
    show ?thesis
    proof (cases "findHit (length (enemies s)) (bullets s ! i) (enemies s)")
      case None
      with True have "collisionLoop (Suc i) now s = collisionLoop i now s" by simp
      with Suc show ?thesis by simp
    next
      case (Some j)
      define s1 where "s1 = s\<lparr>bullets := splice1 i (bullets s)\<rparr>"
      define s2 where "s2 = (if gameMode s1 = Shoot then
                          (if (case currentProblem s1 of
                                 None \<Rightarrow> False
                               | Some p \<Rightarrow> answerValue (enemies s ! j) = answer p)
                           then handleCorrectAnswer now s1
                           else handleWrongAnswer s1)
                        else s1)"
      define s3 where "s3 = s2\<lparr>enemies := splice1 j (enemies s2)\<rparr>"
      have eq: "collisionLoop (Suc i) now s = collisionLoop i now s3"
        using True Some by (simp add: Let_def s1_def s2_def s3_def)
      have i1: "sessionInv s1" "grows s s1" using Suc.prems by (simp_all add: s1_def)
      have "sessionInv s2 \<and> grows s1 s2"
        using resolution_correct[OF i1(1), of now] resolution_wrong[OF i1(1)] i1(1)
        by (simp add: s2_def)
      then have i3: "sessionInv s3" "grows s1 s3" by (simp_all add: s3_def)
      from Suc.IH[OF i3(1)] have "sessionInv (collisionLoop i now s3)" "grows s3 (collisionLoop i now s3)"
        by simp_all
      with i1(2) i3(2) show ?thesis unfolding eq by (blast intro: grows_trans)
    qed
  qed
qed

lemma missedLoop_session:
  "sessionInv s \<Longrightarrow> sessionInv (missedLoop n height s) \<and> grows s (missedLoop n height s)"
proof (induction n arbitrary: s)
  case 0
  then show ?case by simp
next
  case (Suc i)
  show ?case
  proof (cases "i < length (enemies s) \<and> enemyY (enemies s ! i) > height + 50")
    case False
    then have "missedLoop (Suc i) height s = missedLoop i height s" by auto
    with Suc show ?thesis by simp
  next
    case True
    define s1 where "s1 = (if isCorrect (enemies s ! i) \<or> gameMode s = Type then handleWrongAnswer s else s)"
    define s2 where "s2 = s1\<lparr>enemies := splice1 i (enemies s1)\<rparr>"
    define s3 where "s3 = (if length (enemies s2) = 0 \<and> \<not> isGameOver s2 then delayedCall 500 s2 else s2)"
    have eq: "missedLoop (Suc i) height s = missedLoop i height s3"
      using True by (simp add: Let_def s1_def s2_def s3_def)
    have "sessionInv s1 \<and> grows s s1"
      using resolution_wrong[OF Suc.prems] Suc.prems by (simp add: s1_def)
    then have i3: "sessionInv s3" "grows s s3" by (simp_all add: s3_def s2_def)
    from Suc.IH[OF i3(1)] have "sessionInv (missedLoop i height s3)" "grows s3 (missedLoop i height s3)"
      by simp_all
    with i3(2) show ?thesis unfolding eq by (blast intro: grows_trans)
  qed
qed

lemma fire_session: "sessionInv (fire now s) = sessionInv s" "grows s (fire now s)"
  by (simp_all add: fire_def)

lemma update_session:
  assumes "sessionInv s"
  shows "sessionInv (update now height space s) \<and> grows s (update now height space s)"
proof (cases "isGameOver s \<or> isPaused s")
  case True
  with assms show ?thesis by (simp add: update_def)
next
  case False
  define s1 where "s1 = (if gameMode s = Shoot \<and> space then fire now s else s)"
  define s2 where "s2 = checkBulletEnemyCollision now s1"
  define s3 where "s3 = s2\<lparr>bullets := filter (\<lambda>b. \<not> bulletY b < - 20) (bullets s2)\<rparr>"
  have eq: "update now height space s = missedLoop (length (enemies s3)) height s3"
    using False by (simp add: update_def Let_def s1_def s2_def s3_def)
  have i1: "sessionInv s1" "grows s s1" using assms by (simp_all add: s1_def fire_session)
  from collisionLoop_session[OF i1(1)] have i2: "sessionInv s2" "grows s1 s2"
    by (simp_all add: s2_def checkBulletEnemyCollision_def)
  then have i3: "sessionInv s3" "grows s2 s3" by (simp_all add: s3_def)
  from missedLoop_session[OF i3(1)]
  have "sessionInv (missedLoop (length (enemies s3)) height s3)"
       "grows s3 (missedLoop (length (enemies s3)) height s3)" by simp_all
  with i1(2) i2(2) i3(2) show ?thesis unfolding eq by (blast intro: grows_trans)
qed

lemma spawn_session [simp]:
  "sessionInv (spawnAnswerEnemies w c ws g s) = sessionInv s"
  "sessionInv (spawnTypeEnemy w s) = sessionInv s"
  "sessionInv (clearEnemies s) = sessionInv s"
  "grows s0 (spawnAnswerEnemies w c ws g s) = grows s0 s"
  "grows s0 (spawnTypeEnemy w s) = grows s0 s"
  "grows s0 (clearEnemies s) = grows s0 s"
  by (simp_all add: spawnAnswerEnemies_def spawnTypeEnemy_def clearEnemies_def Let_def split: prod.splits)

lemma generateNewProblem_session:
  "sessionInv (generateNewProblem now w g s) = sessionInv s"
  "grows s (generateNewProblem now w g s)"
  by (simp_all add: generateNewProblem_def Let_def split: prod.splits)

lemma answerSubmitListener_session:
  assumes "sessionInv s"
  shows "sessionInv (answerSubmitListener a now s) \<and> grows s (answerSubmitListener a now s)"
proof -
  have c: "sessionInv (checkTypedAnswer a now s) \<and> grows s (checkTypedAnswer a now s)"
    using resolution_wrong[OF assms] resolution_correct[of "s\<lparr>enemies := []\<rparr>" now]
      resolution_correct[OF assms, of now] assms
    by (simp add: checkTypedAnswer_def split: option.splits)
  with assms show ?thesis by (simp add: answerSubmitListener_def)
qed

lemma listeners_session:
  "sessionInv s \<Longrightarrow>
     sessionInv ((answerSubmitListener a now ^^ n) s)
     \<and> grows s ((answerSubmitListener a now ^^ n) s)"
proof (induction n)
  case 0
  then show ?case by simp
next
  case (Suc n)
  then have i: "sessionInv ((answerSubmitListener a now ^^ n) s)"
    and g: "grows s ((answerSubmitListener a now ^^ n) s)" by simp_all
  from answerSubmitListener_session[OF i, where a = a and now = now] g show ?case
    by (auto intro: grows_trans)
qed

lemma checkTypedAnswer_session:
  "sessionInv s \<Longrightarrow> sessionInv (checkTypedAnswer a now s) \<and> grows s (checkTypedAnswer a now s)"
  using resolution_wrong[of s] resolution_correct[of "s\<lparr>enemies := []\<rparr>" now] resolution_correct[of s now]
  by (simp add: checkTypedAnswer_def split: option.splits)

lemma step_session:
  assumes "sessionInv s"
  shows "sessionInv (step i s) \<and> grows s (step i s)"
proof (cases i)
  case (AnswerSubmit a now)
  with listeners_session[OF assms, where a = a and now = now and n = "listenerSets s"] show ?thesis
    by (simp add: onAnswerSubmit_def)
next
  case (Frame now height space)
  with assms update_session[OF assms, of now height space] show ?thesis by simp
next
  case (TimerFires k now width g)
  have "grows s (generateNewProblem now width g (s\<lparr>delayedCalls := splice1 k (delayedCalls s)\<rparr>))"
    using generateNewProblem_session(2)[of "s\<lparr>delayedCalls := splice1 k (delayedCalls s)\<rparr>" now width g]
    by simp
  with TimerFires assms show ?thesis
    by (simp add: delayedNewProblem_def generateNewProblem_session(1))
qed (use assms in \<open>simp_all add: onGamePause_def onGameResume_def onGameQuit_def cleanup_def clearEnemies_def\<close>)

lemma run_session:
  "sessionInv s \<Longrightarrow> sessionInv (run ins s) \<and> grows s (run ins s)"
proof (induction ins arbitrary: s)
  case Nil
  then show ?case by simp
next
  case (Cons i rest)
  from step_session[OF Cons.prems, of i] have a: "sessionInv (step i s)" "grows s (step i s)" by simp_all
  from Cons.IH[OF a(1)] a(2) show ?case by (auto intro: grows_trans)
qed

lemma startSession_inv: "sessionInv (startSession d w h)"
  by (simp add: startSession_def create_def init_def newGameScene_def emitLivesUpdate_def emit_def
        delayedCall_def sessionInv_def summariesPublished_def)


section \<open>The session: concrete states\<close>


lemma showNat_digit: "n < 10 \<Longrightarrow> showNat n = [digitChar n]"
  by (subst showNat.simps) simp

lemma digitChar_values:
  "digitChar 0 = CHR ''0''" "digitChar 1 = CHR ''1''" "digitChar 2 = CHR ''2''"
  "digitChar 3 = CHR ''3''" "digitChar 4 = CHR ''4''" "digitChar 5 = CHR ''5''"
  "digitChar 6 = CHR ''6''" "digitChar 7 = CHR ''7''" "digitChar 8 = CHR ''8''"
  "digitChar 9 = CHR ''9''"
  by code_simp+

lemma digitChar_Suc_0: "digitChar (Suc 0) = CHR ''1''"
  using digitChar_values(2) by simp

lemma startSession_type:
  "startSession typeSessionData 800 600 =
     newGameScene\<lparr>gameMode := Type, emitted := [PlayerLives 5], delayedCalls := [500],
       playerX := 400, playerY := 480, sceneStatus := Running, listenerSets := 1\<rparr>"
  by (simp add: startSession_def create_def init_def newGameScene_def typeSessionData_def
        emitLivesUpdate_def emit_def delayedCall_def)

lemma firstProblem:
  "generate (newMathGenerator 1) None (\<lambda>_. 0) =
     (\<lparr>operand1 = 1, operand2 = 1, operation = addition, answer = 2, equation = ''1 + 1 = ?''\<rparr>,
      \<lambda>_. 0)"
  by (simp add: generate_def newMathGenerator_def DIFFICULTY_CONFIGS_def randomChoice_def
        Math_random_def generateAddition_def randomInt_def showInt_def showNat_digit digitChar_values digitChar_Suc_0)

lemma firstProblemState_eq:
  "firstProblemState =
     newGameScene\<lparr>gameMode := Type,
       emitted := [PlayerLives 5, ProblemNew ''1 + 1 = ?'' 2 None], delayedCalls := [],
       playerX := 400, playerY := 480, sceneStatus := Running, listenerSets := 1,
       currentProblem := Some \<lparr>operand1 = 1, operand2 = 1, operation = addition, answer = 2,
                               equation = ''1 + 1 = ?''\<rparr>,
       problemStartTime := 1000,
       enemies := [\<lparr>enemyX = 400, enemyY = 160, answerValue = 0, isCorrect = True\<rparr>]\<rparr>"
  by (simp add: firstProblemState_def startSession_type newGameScene_def splice1_def
        delayedNewProblem_def generateNewProblem_def clearEnemies_def emit_def spawnTypeEnemy_def
        createEnemy_def Let_def firstProblem)




section \<open>The session: type mode\<close>


lemma set_splice1: "set (splice1 i xs) \<subseteq> set xs"
  using set_take_subset[of i xs] set_drop_subset[of "Suc i" xs] by (auto simp add: splice1_def)

lemma collisionLoop_type_mode:
  "gameMode s = Type \<Longrightarrow>
     playerLives (collisionLoop n now s) = playerLives s
     \<and> gameMode (collisionLoop n now s) = Type
     \<and> set (enemies (collisionLoop n now s)) \<subseteq> set (enemies s)"
proof (induction n arbitrary: s)
  case 0
  then show ?case by simp
next
  case (Suc i)
  show ?case
  proof (cases "i < length (bullets s)")
    case False
    then have "collisionLoop (Suc i) now s = collisionLoop i now s" by simp
    with Suc show ?thesis by simp
  next
    case True
    show ?thesis
    proof (cases "findHit (length (enemies s)) (bullets s ! i) (enemies s)")
      case None
      with True have "collisionLoop (Suc i) now s = collisionLoop i now s" by simp
      with Suc show ?thesis by simp
    next
      case (Some j)
      define s3 where "s3 = s\<lparr>bullets := splice1 i (bullets s), enemies := splice1 j (enemies s)\<rparr>"
      have eq: "collisionLoop (Suc i) now s = collisionLoop i now s3"
        using True Some Suc.prems by (simp add: Let_def s3_def)
      have m: "gameMode s3 = Type" using Suc.prems by (simp add: s3_def)
      have l: "playerLives s3 = playerLives s" by (simp add: s3_def)
      have e: "set (enemies s3) \<subseteq> set (enemies s)" using set_splice1[of j "enemies s"] by (simp add: s3_def)
      from Suc.IH[OF m] l e show ?thesis unfolding eq by auto
    qed
  qed
qed

lemma missedLoop_nothing_below:
  "\<forall>e\<in>set (enemies s). \<not> enemyY e > height + 50 \<Longrightarrow> missedLoop n height s = s"
proof (induction n)
  case 0
  show ?case by simp
next
  case (Suc i)
  have "\<not> (i < length (enemies s) \<and> enemyY (enemies s ! i) > height + 50)"
    using Suc.prems nth_mem[of i "enemies s"] by auto
  then have "missedLoop (Suc i) height s = missedLoop i height s" by auto
  with Suc show ?case by simp
qed

lemma update_type_mode_lives:
  assumes m: "gameMode s = Type"
    and none: "\<forall>e\<in>set (enemies s). \<not> enemyY e > height + 50"
  shows "playerLives (update now height space s) = playerLives s"
proof (cases "isGameOver s \<or> isPaused s")
  case True
  then show ?thesis by (simp add: update_def)
next
  case False
  define s2 where "s2 = checkBulletEnemyCollision now s"
  define s3 where "s3 = s2\<lparr>bullets := filter (\<lambda>b. \<not> bulletY b < - 20) (bullets s2)\<rparr>"
  have eq: "update now height space s = missedLoop (length (enemies s3)) height s3"
    using False m by (simp add: update_def Let_def s2_def s3_def)
  from collisionLoop_type_mode[OF m, of "length (bullets s)" now]
  have l: "playerLives s3 = playerLives s" and e: "set (enemies s3) \<subseteq> set (enemies s)"
    by (simp_all add: s3_def s2_def checkBulletEnemyCollision_def)
  from e none have "\<forall>e\<in>set (enemies s3). \<not> enemyY e > height + 50" by blast
  from missedLoop_nothing_below[OF this] l show ?thesis unfolding eq by simp
qed

lemma generateNewProblem_lives: "playerLives (generateNewProblem now w g s) = playerLives s"
  by (simp add: generateNewProblem_def Let_def spawnAnswerEnemies_def spawnTypeEnemy_def
        clearEnemies_def emit_def split: prod.splits)

lemma answerSubmitListener_lives:
  "playerLives (answerSubmitListener a now s) =
     (if gameMode s = Type \<and> \<not> isGameOver s \<and> \<not> isPaused s
         \<and> (\<exists>p. currentProblem s = Some p \<and> a \<noteq> answer p)
      then playerLives s - 1 else playerLives s)"
  by (auto simp add: answerSubmitListener_def checkTypedAnswer_def handleWrongAnswer_fields
        handleCorrectAnswer_fields split: option.splits)

lemma answerSubmitListener_keeps:
  "currentProblem (answerSubmitListener a now s) = currentProblem s"
  "listenerSets (answerSubmitListener a now s) = listenerSets s"
  by (simp_all add: answerSubmitListener_def checkTypedAnswer_def handleWrongAnswer_fields
        handleCorrectAnswer_fields split: option.splits)

lemma funpow_fixed: "f s = s \<Longrightarrow> (f ^^ n) s = s"
  by (induction n) simp_all

lemma listeners_keep:
  "currentProblem ((answerSubmitListener a now ^^ n) s) = currentProblem s"
  by (induction n) (simp_all add: answerSubmitListener_keeps)

lemma listeners_lives_le:
  "playerLives ((answerSubmitListener a now ^^ n) s) \<le> playerLives s"
proof (induction n)
  case 0
  show ?case by simp
next
  case (Suc n)
  have "playerLives (answerSubmitListener a now ((answerSubmitListener a now ^^ n) s))
          \<le> playerLives ((answerSubmitListener a now ^^ n) s)"
    by (simp add: answerSubmitListener_lives)
  with Suc show ?case by simp
qed

lemma listeners_no_loss:
  assumes "\<not> (\<exists>p. currentProblem s = Some p \<and> a \<noteq> answer p)"
  shows "playerLives ((answerSubmitListener a now ^^ n) s) = playerLives s"
proof (induction n)
  case 0
  show ?case by simp
next
  case (Suc n)
  have "playerLives (answerSubmitListener a now ((answerSubmitListener a now ^^ n) s))
          = playerLives ((answerSubmitListener a now ^^ n) s)"
    using assms by (simp add: answerSubmitListener_lives listeners_keep)
  with Suc show ?case by simp
qed

lemma onAnswerSubmit_loses:
  assumes "gameMode s = Type" "\<not> isGameOver s" "\<not> isPaused s" "0 < listenerSets s"
    and "currentProblem s = Some p" "a \<noteq> answer p"
  shows "playerLives (onAnswerSubmit a now s) < playerLives s"
proof -
  from assms(4) obtain m where m: "listenerSets s = Suc m" by (cases "listenerSets s") simp_all
  have "(answerSubmitListener a now ^^ Suc m) s
          = (answerSubmitListener a now ^^ m) (answerSubmitListener a now s)"
    by (simp only: funpow_Suc_right o_apply)
  moreover have "playerLives ((answerSubmitListener a now ^^ m) (answerSubmitListener a now s))
          \<le> playerLives (answerSubmitListener a now s)"
    by (rule listeners_lives_le)
  moreover have "playerLives (answerSubmitListener a now s) = playerLives s - 1"
    using assms by (simp add: answerSubmitListener_lives)
  ultimately show ?thesis by (simp add: onAnswerSubmit_def m)
qed

lemma onAnswerSubmit_one_listener:
  "listenerSets s = 1 \<Longrightarrow> onAnswerSubmit a now s = answerSubmitListener a now s"
  by (simp add: onAnswerSubmit_def)

lemma generateNewProblem_fields:
  assumes "\<not> isGameOver s"
  shows "currentProblem (generateNewProblem now w g s) = Some (fst (generate (mathGenerator s) None g))"
    "problemStartTime (generateNewProblem now w g s) = now"
    "streak (generateNewProblem now w g s) = streak s"
    "score (generateNewProblem now w g s) = score s"
    "xpEarned (generateNewProblem now w g s) = xpEarned s"
    "bestStreak (generateNewProblem now w g s) = bestStreak s"
    "correctAnswers (generateNewProblem now w g s) = correctAnswers s"
    "isGameOver (generateNewProblem now w g s) = isGameOver s"
    "isPaused (generateNewProblem now w g s) = isPaused s"
    "gameMode (generateNewProblem now w g s) = gameMode s"
    "sceneStatus (generateNewProblem now w g s) = sceneStatus s"
    "listenerSets (generateNewProblem now w g s) = listenerSets s"
  using assms
  by (simp_all add: generateNewProblem_def Let_def spawnAnswerEnemies_def spawnTypeEnemy_def
        clearEnemies_def emit_def split: prod.splits)

lemma startSession_fields:
  "delayedCalls (startSession d w h) = [500]"
  "sceneStatus (startSession d w h) = Running"
  "gameMode (startSession d w h) = data_mode d"
  "\<not> isGameOver (startSession d w h)"
  "\<not> isPaused (startSession d w h)"
  "streak (startSession d w h) = 0"
  "score (startSession d w h) = 0"
  "xpEarned (startSession d w h) = 0"
  "bestStreak (startSession d w h) = 0"
  "correctAnswers (startSession d w h) = 0"
  "playerLives (startSession d w h) = 5"
  "currentProblem (startSession d w h) = None"
  "emitted (startSession d w h) = [PlayerLives 5]"
  "listenerSets (startSession d w h) = 1"
  by (simp_all add: startSession_def create_def init_def newGameScene_def emitLivesUpdate_def
        emit_def delayedCall_def)


section \<open>The claims about the session\<close>

text \<open>
  C3, as stated, fails: in the fresh type-mode session whose first problem is \<open>1 + 1\<close>,
  the correct answer 2 submitted one second after the problem was issued publishes
  \<open>answer:correct\<close> with \<open>xp = 17\<close>, not 15.
\<close>

theorem C3_first_answer_counterexample:
  "gameMode firstProblemState = Type
   \<and> streak firstProblemState = 0
   \<and> map_option answer (currentProblem firstProblemState) = Some 2
   \<and> problemStartTime firstProblemState = 1000
   \<and> emitted (step (AnswerSubmit 2 2000) firstProblemState) =
       [PlayerLives 5, ProblemNew ''1 + 1 = ?'' 2 None, AnswerCorrect 17 1, ScoreUpdate 110 1]"
  by (simp add: firstProblemState_eq newGameScene_def onAnswerSubmit_def answerSubmitListener_def
        checkTypedAnswer_def
        handleCorrectAnswer_fields streakBonusOf_def)

text \<open>
  C3, amended. In a fresh type-mode session (any difficulty, camera and random source),
  the correct answer to the first problem submitted less than 3000 ms after the problem
  was issued publishes \<open>answer:correct\<close> with \<open>xp = 17\<close> and streak 1, then
  \<open>score:update\<close> with score 110: 10 base, 5 time bonus and a streak bonus of 2, because
  the streak is incremented to 1 before the bonus \<open>min(20, streak * 2)\<close> is computed.
\<close>

theorem C3_first_answer_amended:
  "data_mode d = Type \<and> now1 - now0 < 3000 \<longrightarrow>
     (\<exists>p. currentProblem (step (TimerFires 0 now0 w g) (startSession d w h)) = Some p
        \<and> emitted (step (AnswerSubmit (answer p) now1)
                     (step (TimerFires 0 now0 w g) (startSession d w h))) =
            emitted (step (TimerFires 0 now0 w g) (startSession d w h))
              @ [AnswerCorrect 17 1, ScoreUpdate 110 1]
        \<and> xpEarned (step (AnswerSubmit (answer p) now1)
                      (step (TimerFires 0 now0 w g) (startSession d w h))) = 17)"
proof
  assume a: "data_mode d = Type \<and> now1 - now0 < 3000"
  define s0 where "s0 = (startSession d w h)\<lparr>delayedCalls := splice1 0 (delayedCalls (startSession d w h))\<rparr>"
  define s1 where "s1 = generateNewProblem now0 w g s0"
  have live: "\<not> isGameOver s0" by (simp add: s0_def startSession_fields)
  have s1: "step (TimerFires 0 now0 w g) (startSession d w h) = s1"
    by (simp add: s1_def s0_def startSession_fields delayedNewProblem_def)
  define p where "p = fst (generate (mathGenerator s0) None g)"
  have z: "streak s0 = 0" "score s0 = 0" "xpEarned s0 = 0" "\<not> isPaused s0" "gameMode s0 = Type"
    "listenerSets s0 = 1"
    using a by (simp_all add: s0_def startSession_fields)
  have f: "currentProblem s1 = Some p" "problemStartTime s1 = now0" "streak s1 = 0" "score s1 = 0"
    "xpEarned s1 = 0" "\<not> isGameOver s1" "\<not> isPaused s1" "gameMode s1 = Type"
    "listenerSets s1 = 1"
    using z live by (simp_all add: s1_def p_def generateNewProblem_fields[OF live])
  have "emitted (step (AnswerSubmit (answer p) now1) s1) = emitted s1 @ [AnswerCorrect 17 1, ScoreUpdate 110 1]
        \<and> xpEarned (step (AnswerSubmit (answer p) now1) s1) = 17"
    using f a
    by (simp add: onAnswerSubmit_def answerSubmitListener_def checkTypedAnswer_def
          handleCorrectAnswer_fields streakBonusOf_def)
  with f(1) show "\<exists>p. currentProblem (step (TimerFires 0 now0 w g) (startSession d w h)) = Some p
        \<and> emitted (step (AnswerSubmit (answer p) now1)
                     (step (TimerFires 0 now0 w g) (startSession d w h))) =
            emitted (step (TimerFires 0 now0 w g) (startSession d w h))
              @ [AnswerCorrect 17 1, ScoreUpdate 110 1]
        \<and> xpEarned (step (AnswerSubmit (answer p) now1)
                      (step (TimerFires 0 now0 w g) (startSession d w h))) = 17"
    unfolding s1 by blast
qed

theorem C3_first_answer_amended_witness:
  "data_mode typeSessionData = Type \<and> (2999::int) - 0 < 3000
   \<and> (\<exists>p. currentProblem (step (TimerFires 0 0 800 (\<lambda>_. 1 / 2)) (startSession typeSessionData 800 600)) = Some p
        \<and> xpEarned (step (AnswerSubmit (answer p) 2999)
                      (step (TimerFires 0 0 800 (\<lambda>_. 1 / 2)) (startSession typeSessionData 800 600))) = 17)"
  using C3_first_answer_amended [of typeSessionData 2999 0 800 "\<lambda>_. 1 / 2" 600]
  by (auto simp add: typeSessionData_def)

lemma run_from_start:
  "run (TimerFires 0 1000 800 (\<lambda>_. 0) # ins) (startSession typeSessionData 800 600)
     = run ins firstProblemState"
  by (simp only: run.simps firstProblemState_def)

text \<open>
  What the invariant says of the end of a session started on a new object: the game is
  over exactly when no life is left, and the summaries published are one for each
  resolution that left no life, so one with 0 lives and none with a life left.
\<close>

lemma session_end_invariant:
  "isGameOver (run ins (startSession d w h)) = (playerLives (run ins (startSession d w h)) \<le> 0)
   \<and> playerLives (run ins (startSession d w h)) \<le> 5
   \<and> summariesPublished (run ins (startSession d w h)) =
        (if playerLives (run ins (startSession d w h)) \<le> 0
         then nat (1 - playerLives (run ins (startSession d w h))) else 0)"
proof -
  from run_session[OF startSession_inv, of ins d w h]
  have "sessionInv (run ins (startSession d w h))" by simp
  then show ?thesis by (simp add: sessionInv_def)
qed








text \<open>
  C5, as stated, fails: in a type-mode session with five lives, a frame in which the
  target has fallen below the camera takes a life although nothing was submitted.
\<close>

theorem C5_type_mode_counterexample:
  "gameMode firstProblemState = Type
   \<and> playerLives firstProblemState = 5
   \<and> playerLives (run [Physics (400, 480) [] [(400, 700)], Frame 3000 600 False] firstProblemState) = 4"
  by (simp add: firstProblemState_eq newGameScene_def update_def checkBulletEnemyCollision_def
        handleWrongAnswer_fields splice1_def delayedCall_def Let_def)

text \<open>
  C5, amended. In type mode an input takes a life only if it is a submitted number
  different from the answer of the current problem, or a frame in which an enemy is
  below the play bounds (\<open>y > height + 50\<close>): there is a timeout penalty, a frame in
  which the single target has left the play bounds takes a life. A different number
  submitted while the game runs takes at least one life (one for each listener on the
  event bus until the game is over; exactly one in the first game on the scene object).
\<close>

theorem C5_type_mode_lives_amended:
  "(gameMode s = Type \<and> playerLives (step i s) < playerLives s \<longrightarrow>
      (\<exists>a now p. i = AnswerSubmit a now \<and> currentProblem s = Some p \<and> a \<noteq> answer p)
      \<or> (\<exists>now height space. i = Frame now height space
            \<and> (\<exists>e\<in>set (enemies s). enemyY e > height + 50)))
   \<and> (gameMode s = Type \<and> sceneStatus s = Running \<and> \<not> isGameOver s \<and> \<not> isPaused s
        \<and> bullets s = [] \<and> enemies s = [e] \<and> enemyY e > height + 50 \<longrightarrow>
        playerLives (step (Frame now height space) s) = playerLives s - 1)
   \<and> (gameMode s = Type \<and> \<not> isGameOver s \<and> \<not> isPaused s \<and> 0 < listenerSets s
        \<and> currentProblem s = Some p \<and> a \<noteq> answer p \<longrightarrow>
        playerLives (step (AnswerSubmit a now) s) < playerLives s)
   \<and> (gameMode s = Type \<and> \<not> isGameOver s \<and> \<not> isPaused s \<and> listenerSets s = 1
        \<and> currentProblem s = Some p \<and> a \<noteq> answer p \<longrightarrow>
        playerLives (step (AnswerSubmit a now) s) = playerLives s - 1)"
proof (intro conjI impI)
  assume a: "gameMode s = Type \<and> playerLives (step i s) < playerLives s"
  show "(\<exists>a now p. i = AnswerSubmit a now \<and> currentProblem s = Some p \<and> a \<noteq> answer p)
      \<or> (\<exists>now height space. i = Frame now height space
            \<and> (\<exists>e\<in>set (enemies s). enemyY e > height + 50))"
  proof (cases i)
    case (AnswerSubmit a' now')
    have "\<exists>p. currentProblem s = Some p \<and> a' \<noteq> answer p"
    proof (rule ccontr)
      assume "\<not> (\<exists>p. currentProblem s = Some p \<and> a' \<noteq> answer p)"
      from listeners_no_loss[OF this, where now = now' and n = "listenerSets s"] a AnswerSubmit
      show False by (simp add: onAnswerSubmit_def)
    qed
    with AnswerSubmit show ?thesis by blast
  next
    case (Frame now' height' space')
    with a update_type_mode_lives[of s height' now' space'] show ?thesis
      by (auto split: if_splits)
  next
    case (TimerFires k now' w g)
    with a show ?thesis
      by (simp add: delayedNewProblem_def generateNewProblem_lives split: if_splits)
  qed (use a in \<open>auto simp add: onGamePause_def onGameResume_def onGameQuit_def cleanup_def clearEnemies_def split: if_splits\<close>)
next
  assume "gameMode s = Type \<and> sceneStatus s = Running \<and> \<not> isGameOver s \<and> \<not> isPaused s
        \<and> bullets s = [] \<and> enemies s = [e] \<and> enemyY e > height + 50"
  then show "playerLives (step (Frame now height space) s) = playerLives s - 1"
    by (simp add: update_def checkBulletEnemyCollision_def Let_def handleWrongAnswer_fields
          splice1_def delayedCall_def)
next
  assume "gameMode s = Type \<and> \<not> isGameOver s \<and> \<not> isPaused s \<and> 0 < listenerSets s
        \<and> currentProblem s = Some p \<and> a \<noteq> answer p"
  then show "playerLives (step (AnswerSubmit a now) s) < playerLives s"
    using onAnswerSubmit_loses[of s p a now] by simp
next
  assume "gameMode s = Type \<and> \<not> isGameOver s \<and> \<not> isPaused s \<and> listenerSets s = 1
        \<and> currentProblem s = Some p \<and> a \<noteq> answer p"
  then show "playerLives (step (AnswerSubmit a now) s) = playerLives s - 1"
    by (simp add: onAnswerSubmit_one_listener answerSubmitListener_lives)
qed

lemma secondGameProblemState_fields:
  "gameMode secondGameProblemState = Type" "listenerSets secondGameProblemState = 2"
  "playerLives secondGameProblemState = 5" "\<not> isGameOver secondGameProblemState"
  "\<not> isPaused secondGameProblemState"
  "currentProblem secondGameProblemState =
     Some \<lparr>operand1 = 1, operand2 = 1, operation = addition, answer = 2, equation = ''1 + 1 = ?''\<rparr>"
  by (simp_all add: secondGameProblemState_def restartSession_def create_def init_def
        firstProblemState_eq newGameScene_def typeSessionData_def emitLivesUpdate_def emit_def
        delayedCall_def splice1_def delayedNewProblem_def generateNewProblem_def clearEnemies_def
        spawnTypeEnemy_def createEnemy_def Let_def firstProblem)

theorem C5_type_mode_lives_amended_witness:
  "gameMode (step (Physics (400, 480) [] [(400, 700)]) firstProblemState) = Type
   \<and> enemies (step (Physics (400, 480) [] [(400, 700)]) firstProblemState) =
        [\<lparr>enemyX = 400, enemyY = 700, answerValue = 0, isCorrect = True\<rparr>]
   \<and> playerLives (step (Frame 3000 600 False)
                     (step (Physics (400, 480) [] [(400, 700)]) firstProblemState)) = 4
   \<and> playerLives (step (AnswerSubmit 3 2000) firstProblemState) = 4
   \<and> playerLives (step (AnswerSubmit 2 2000) firstProblemState) = 5
   \<and> playerLives (step (Frame 3000 600 False) firstProblemState) = 5
   \<and> listenerSets secondGameProblemState = 2
   \<and> playerLives secondGameProblemState = 5
   \<and> playerLives (step (AnswerSubmit 3 2000) secondGameProblemState) < 5"
  using C5_type_mode_lives_amended
      [where s = "step (Physics (400, 480) [] [(400, 700)]) firstProblemState"
         and i = "Frame 3000 600 False"
         and p = "\<lparr>operand1 = 1, operand2 = 1, operation = addition, answer = 2,
                    equation = ''1 + 1 = ?''\<rparr>"
         and a = 3 and now = 3000 and height = 600 and space = False
         and e = "\<lparr>enemyX = 400, enemyY = 700, answerValue = 0, isCorrect = True\<rparr>"]
    C5_type_mode_lives_amended
      [where s = firstProblemState and i = "AnswerSubmit 3 2000"
         and p = "\<lparr>operand1 = 1, operand2 = 1, operation = addition, answer = 2,
                    equation = ''1 + 1 = ?''\<rparr>"
         and a = 3 and now = 2000 and height = 600 and space = False
         and e = "\<lparr>enemyX = 400, enemyY = 160, answerValue = 0, isCorrect = True\<rparr>"]
    C5_type_mode_lives_amended
      [where s = secondGameProblemState and i = "AnswerSubmit 3 2000"
         and p = "\<lparr>operand1 = 1, operand2 = 1, operation = addition, answer = 2,
                    equation = ''1 + 1 = ?''\<rparr>"
         and a = 3 and now = 2000 and height = 600 and space = False
         and e = "\<lparr>enemyX = 400, enemyY = 160, answerValue = 0, isCorrect = True\<rparr>"]
  by (simp add: secondGameProblemState_fields)
     (simp add: firstProblemState_eq newGameScene_def onAnswerSubmit_def answerSubmitListener_def
        checkTypedAnswer_def handleWrongAnswer_fields handleCorrectAnswer_fields update_def
        checkBulletEnemyCollision_def splice1_def delayedCall_def Let_def)

text \<open>
  In that second game the wrong number 3 is resolved by both listeners and takes two
  lives.
\<close>

lemma second_game_wrong_answer_twice:
  "playerLives (step (AnswerSubmit 3 2000) secondGameProblemState) = 3"
  by (simp add: onAnswerSubmit_def secondGameProblemState_fields numeral_2_eq_2
        answerSubmitListener_lives answerSubmitListener_keeps answerSubmitListener_def
        checkTypedAnswer_def handleWrongAnswer_fields)

text \<open>
  C8, as stated, fails: the text \<open>abc\<close> typed into the answer box of a running
  type-mode session is dropped; no event is published, the lives stay at 5, and the box
  keeps its text. The wrong number 3 takes a life and publishes \<open>answer:wrong\<close>.
\<close>

theorem C8_unparsable_counterexample:
  "gameMode firstProblemState = Type \<and> \<not> isGameOver firstProblemState \<and> \<not> isPaused firstProblemState
   \<and> parseInt10 ''abc'' = None
   \<and> submitAnswer ''abc'' 2000 firstProblemState = (''abc'', firstProblemState)
   \<and> playerLives (snd (submitAnswer ''abc'' 2000 firstProblemState)) = 5
   \<and> emitted (snd (submitAnswer ''abc'' 2000 firstProblemState)) = emitted firstProblemState
   \<and> playerLives (snd (submitAnswer ''3'' 2000 firstProblemState)) = 4
   \<and> emitted (snd (submitAnswer ''3'' 2000 firstProblemState)) =
        emitted firstProblemState @ [PlayerLives 4, AnswerWrong, ScoreUpdate 0 0]"
  by (simp add: submitAnswer_def parseInt10_def isWhiteSpace_def isDigit_def Let_def
        firstProblemState_eq newGameScene_def onAnswerSubmit_def answerSubmitListener_def
        checkTypedAnswer_def
        handleWrongAnswer_fields)

text \<open>
  C8, amended. A typed text that \<open>parseInt\<close> cannot read as a number (no decimal digit
  after the leading white space and an optional sign) is dropped by the interface: the
  scene is unchanged, nothing is published, and the text stays in the box. A text that
  parses to a number \<open>a\<close> is submitted as \<open>a\<close>, and the box is cleared.
\<close>

theorem C8_unparsable_amended:
  "(parseInt10 typed = None \<longrightarrow> submitAnswer typed now s = (typed, s))
   \<and> (parseInt10 typed = Some a \<longrightarrow> submitAnswer typed now s = ([], onAnswerSubmit a now s))
   \<and> (takeWhile isDigit (dropWhile isWhiteSpace typed) = []
        \<and> (\<forall>rest. dropWhile isWhiteSpace typed \<noteq> CHR ''-'' # rest)
        \<and> (\<forall>rest. dropWhile isWhiteSpace typed \<noteq> CHR ''+'' # rest)
        \<longrightarrow> parseInt10 typed = None)"
  by (auto simp add: submitAnswer_def parseInt10_def Let_def split: list.splits)

theorem C8_unparsable_amended_witness:
  "parseInt10 ''seven'' = None
   \<and> submitAnswer ''seven'' 2000 firstProblemState = (''seven'', firstProblemState)
   \<and> parseInt10 ''12abc'' = Some 12
   \<and> submitAnswer ''12abc'' 2000 firstProblemState = ([], onAnswerSubmit 12 2000 firstProblemState)"
  using C8_unparsable_amended [of "''seven''" 2000 firstProblemState 0]
    C8_unparsable_amended [of "''12abc''" 2000 firstProblemState 12]
  by (simp add: parseInt10_def isWhiteSpace_def isDigit_def Let_def)

text \<open>
  C9. Pausing and then resuming, with nothing in between, leaves score, streak, lives and
  current problem as they were. This holds in every state (so in every reachable state
  that is neither ended nor paused); the only fields that can differ afterwards are the
  pause flag and the scene status, which are those of a running scene. While the scene
  is paused, a submitted answer, a frame and a delayed callback change nothing.
\<close>

theorem C9_pause_resume:
  "score (step GameResume (step GamePause s)) = score s
   \<and> streak (step GameResume (step GamePause s)) = streak s
   \<and> playerLives (step GameResume (step GamePause s)) = playerLives s
   \<and> currentProblem (step GameResume (step GamePause s)) = currentProblem s
   \<and> step GameResume (step GamePause s) = s\<lparr>isPaused := False, sceneStatus := Running\<rparr>
   \<and> step (AnswerSubmit a now) (step GamePause s) = step GamePause s
   \<and> step (Frame now height space) (step GamePause s) = step GamePause s
   \<and> step (TimerFires k now width g) (step GamePause s) = step GamePause s"
proof -
  have paused: "isPaused (step GamePause s)" "sceneStatus (step GamePause s) = ScenePaused"
    by (simp_all add: onGamePause_def)
  have resumed: "step GameResume (step GamePause s) = s\<lparr>isPaused := False, sceneStatus := Running\<rparr>"
    by (simp add: onGamePause_def onGameResume_def)
  have "answerSubmitListener a now (step GamePause s) = step GamePause s"
    using paused(1) by (simp add: answerSubmitListener_def)
  then have "step (AnswerSubmit a now) (step GamePause s) = step GamePause s"
    by (simp only: step.simps onAnswerSubmit_def funpow_fixed)
  moreover have "step (Frame now height space) (step GamePause s) = step GamePause s"
    using paused(2) by (simp only: step.simps) simp
  moreover have "step (TimerFires k now width g) (step GamePause s) = step GamePause s"
    using paused(2) by (simp only: step.simps) simp
  ultimately show ?thesis unfolding resumed by simp
qed

text \<open>
  C10. In every state of every session score and earned experience are non-negative
  integers, and no input decreases them. \<open>handleWrongAnswer\<close> changes the streak and the
  lives, publishes its events and may end the game; score, earned experience, correct
  count, best streak and current problem are as before. The streak bonus is at most 20
  for every streak, and a correct answer adds \<open>10 + timeBonus + streakBonus\<close> to the
  experience and \<open>100 + streakBonus * 5\<close> to the score.
\<close>

theorem C10_scores_grow:
  "0 \<le> score (run ins (startSession d w h))
   \<and> 0 \<le> xpEarned (run ins (startSession d w h))
   \<and> score (run ins (startSession d w h)) \<le> score (step i (run ins (startSession d w h)))
   \<and> xpEarned (run ins (startSession d w h)) \<le> xpEarned (step i (run ins (startSession d w h)))
   \<and> handleWrongAnswer s =
        s\<lparr>streak := 0, playerLives := playerLives s - 1,
          emitted := emitted s @ [PlayerLives (playerLives s - 1), AnswerWrong, ScoreUpdate (score s) 0]
            @ (if playerLives s - 1 \<le> 0
               then [GameOverEvent (score s) (correctAnswers s) (xpEarned s) (bestStreak s)] else []),
          isGameOver := isGameOver s \<or> playerLives s - 1 \<le> 0\<rparr>
   \<and> score (handleWrongAnswer s) = score s
   \<and> xpEarned (handleWrongAnswer s) = xpEarned s
   \<and> correctAnswers (handleWrongAnswer s) = correctAnswers s
   \<and> bestStreak (handleWrongAnswer s) = bestStreak s
   \<and> currentProblem (handleWrongAnswer s) = currentProblem s
   \<and> streakBonusOf n \<le> 20
   \<and> xpEarned (handleCorrectAnswer now s) =
        xpEarned s + (10 + (if now - problemStartTime s < 3000 then 5 else 0)
                        + streakBonusOf (streak s + 1))
   \<and> score (handleCorrectAnswer now s) = score s + (100 + streakBonusOf (streak s + 1) * 5)"
proof -
  from run_session[OF startSession_inv, of ins d w h]
  have inv: "sessionInv (run ins (startSession d w h))" by simp
  from step_session[OF inv, of i]
  have g: "grows (run ins (startSession d w h)) (step i (run ins (startSession d w h)))" by simp
  have w: "handleWrongAnswer s =
        s\<lparr>streak := 0, playerLives := playerLives s - 1,
          emitted := emitted s @ [PlayerLives (playerLives s - 1), AnswerWrong, ScoreUpdate (score s) 0]
            @ (if playerLives s - 1 \<le> 0
               then [GameOverEvent (score s) (correctAnswers s) (xpEarned s) (bestStreak s)] else []),
          isGameOver := isGameOver s \<or> playerLives s - 1 \<le> 0\<rparr>"
    by (simp add: handleWrongAnswer_def scene_defs)
  from inv g w show ?thesis
    by (simp add: sessionInv_def grows_def handleWrongAnswer_fields handleCorrectAnswer_fields
          streakBonusOf_bounds)
qed

theorem C10_scores_grow_witness:
  "score (run (replicate 12 (AnswerSubmit 2 2000)) firstProblemState) = 1950
   \<and> xpEarned (run (replicate 12 (AnswerSubmit 2 2000)) firstProblemState) = 330
   \<and> streakBonusOf 12 = 20
   \<and> score (step (AnswerSubmit 3 2000) (run (replicate 12 (AnswerSubmit 2 2000)) firstProblemState)) = 1950
   \<and> streak (step (AnswerSubmit 3 2000) (run (replicate 12 (AnswerSubmit 2 2000)) firstProblemState)) = 0"
  using C10_scores_grow [of "TimerFires 0 1000 800 (\<lambda>_. 0) # replicate 12 (AnswerSubmit 2 2000)"
      typeSessionData 800 600 "AnswerSubmit 3 2000" newGameScene 12 0, unfolded run_from_start]
  by (simp add: firstProblemState_eq newGameScene_def onAnswerSubmit_def answerSubmitListener_def
        checkTypedAnswer_def
        handleCorrectAnswer_def handleWrongAnswer_def scene_defs streakBonusOf_def numeral_eq_Suc)

end
